theory Spec2Isabelle
  imports Complex_Main
begin

section \<open>JavaScript values\<close>

text \<open>
  The two scripts of the repository are \<^verbatim>\<open>overlay.js\<close> (the page that owns the YouTube
  player: the Controller) and the script that follows the style sheet in
  \<^verbatim>\<open>overlay.css\<close> (the overlay that listens on the WebSocket: the Display).

  A JavaScript value is modelled by \<open>jsval\<close>. Strings are lists of 8-bit characters, so
  only code units below 256 occur. A number is the real number it denotes, \<open>NaN\<close> apart;
  the rounding of doubles is not modelled. An object is the list of its own properties.
\<close>

datatype jsval =
    JUndefined
  | JNull
  | JBool bool
  | JNum real
  | JNaN
  | JStr string
  | JArr "jsval list"
  | JObj "(string \<times> jsval) list"

datatype js_error = SyntaxError | TypeError

text \<open>ToBoolean, as used by \<^verbatim>\<open>if (x)\<close>, \<^verbatim>\<open>x && y\<close> and \<^verbatim>\<open>x || y\<close>.\<close>

fun truthy :: "jsval \<Rightarrow> bool" where
  "truthy JUndefined = False"
| "truthy JNull = False"
| "truthy (JBool b) = b"
| "truthy (JNum r) = (r \<noteq> 0)"
| "truthy JNaN = False"
| "truthy (JStr s) = (s \<noteq> [])"
| "truthy (JArr xs) = True"
| "truthy (JObj kvs) = True"

text \<open>
  \<^verbatim>\<open>v.k\<close> for the property names the scripts read (\<^verbatim>\<open>id\<close>, \<^verbatim>\<open>title\<close>,
  \<^verbatim>\<open>author\<close>, \<^verbatim>\<open>command\<close>, \<^verbatim>\<open>params\<close>, \<^verbatim>\<open>value\<close>, \<^verbatim>\<open>playlist\<close>,
  \<^verbatim>\<open>currentIndex\<close>): none of them is a built-in property of a string, a number, a
  boolean or an array, so only an object can hold one. Reading a property of
  \<^verbatim>\<open>null\<close> or \<^verbatim>\<open>undefined\<close> raises TypeError.
\<close>

fun get_prop :: "jsval \<Rightarrow> string \<Rightarrow> js_error + jsval" where
  "get_prop JUndefined k = Inl TypeError"
| "get_prop JNull k = Inl TypeError"
| "get_prop (JObj kvs) k = (case map_of kvs k of None \<Rightarrow> Inr JUndefined | Some v \<Rightarrow> Inr v)"
| "get_prop v k = Inr JUndefined"

text \<open>A number as \<^verbatim>\<open>parseInt\<close> and integer arithmetic produce it.\<close>

datatype jsnum = Num int | NaN

section \<open>Strings: \<^verbatim>\<open>trim\<close>, \<^verbatim>\<open>parseInt\<close>\<close>

definition code :: "char \<Rightarrow> nat" where
  "code c = of_char c"

text \<open>White space and line terminators of ECMAScript, among the code units below 256.\<close>

definition white_space :: "char \<Rightarrow> bool" where
  "white_space c \<longleftrightarrow> code c \<in> {9, 10, 11, 12, 13, 32, 160}"

definition line_terminator :: "char \<Rightarrow> bool" where
  "line_terminator c \<longleftrightarrow> code c \<in> {10, 13}"

definition trim :: "string \<Rightarrow> string" where
  "trim s = rev (dropWhile white_space (rev (dropWhile white_space s)))"

definition digit_value :: "char \<Rightarrow> nat option" where
  "digit_value c =
     (let n = code c in
      if 48 \<le> n \<and> n \<le> 57 then Some (n - 48)
      else if 97 \<le> n \<and> n \<le> 122 then Some (n - 87)
      else if 65 \<le> n \<and> n \<le> 90 then Some (n - 55)
      else None)"

definition radix_digit :: "nat \<Rightarrow> char \<Rightarrow> bool" where
  "radix_digit R c = (case digit_value c of None \<Rightarrow> False | Some d \<Rightarrow> d < R)"

fun digits_value :: "nat \<Rightarrow> nat \<Rightarrow> string \<Rightarrow> nat" where
  "digits_value R acc [] = acc"
| "digits_value R acc (c # cs) = digits_value R (acc * R + the (digit_value c)) cs"

text \<open>
  \<^verbatim>\<open>parseInt(s)\<close> with no radix: leading white space is skipped, then a sign, then
  \<^verbatim>\<open>0x\<close> or \<^verbatim>\<open>0X\<close> selects radix 16, then the longest run of digits is read; no digit
  gives \<^verbatim>\<open>NaN\<close>. The result is the exact integer; JavaScript rounds it to a double beyond
  \<open>2 ^ 53\<close> and to \<^verbatim>\<open>Infinity\<close> beyond the range of doubles, values that are no index of
  any playlist either way.
\<close>

definition parseInt :: "string \<Rightarrow> jsnum" where
  "parseInt inputString =
     (let S = dropWhile white_space inputString;
          neg = (S \<noteq> [] \<and> hd S = CHR ''-'');
          S1 = (if S \<noteq> [] \<and> (hd S = CHR ''+'' \<or> hd S = CHR ''-'') then tl S else S);
          hex = (length S1 \<ge> 2 \<and> hd S1 = CHR ''0'' \<and> (S1 ! 1 = CHR ''x'' \<or> S1 ! 1 = CHR ''X''));
          R = (if hex then 16 else 10);
          S2 = (if hex then drop 2 S1 else S1);
          Z = takeWhile (radix_digit R) S2
      in if Z = [] then NaN
         else if neg then Num (- int (digits_value R 0 Z))
         else Num (int (digits_value R 0 Z)))"

section \<open>Resolving a URL to a video identifier (\<^verbatim>\<open>overlay.js\<close>)\<close>

text \<open>
  \<^verbatim>\<open>/^.*(youtu.be\/|v\/|u\/\w\/|embed\/|watch\?v=|&v=)([^#&?]*).*/\<close>

  \<open>strip_prefix p s\<close> reads the literal \<open>p\<close> at the head of \<open>s\<close> and returns what follows.
\<close>

fun strip_prefix :: "string \<Rightarrow> string \<Rightarrow> string option" where
  "strip_prefix [] s = Some s"
| "strip_prefix (p # ps) [] = None"
| "strip_prefix (p # ps) (c # cs) = (if p = c then strip_prefix ps cs else None)"

text \<open>\<^verbatim>\<open>\w\<close> is a letter, a digit or the underscore.\<close>

definition word_char :: "char \<Rightarrow> bool" where
  "word_char c \<longleftrightarrow>
     (let n = code c in
      (48 \<le> n \<and> n \<le> 57) \<or> (65 \<le> n \<and> n \<le> 90) \<or> (97 \<le> n \<and> n \<le> 122) \<or> n = 95)"

text \<open>
  \<^verbatim>\<open>youtu.be\/\<close>: the dot is not escaped, so it stands for any character that is not a
  line terminator.
\<close>

definition alt_youtu_be :: "string \<Rightarrow> string option" where
  "alt_youtu_be s =
     (case strip_prefix ''youtu'' s of
        None \<Rightarrow> None
      | Some [] \<Rightarrow> None
      | Some (c # r) \<Rightarrow> if line_terminator c then None else strip_prefix ''be/'' r)"

text \<open>\<^verbatim>\<open>u\/\w\/\<close>\<close>

definition alt_u_w :: "string \<Rightarrow> string option" where
  "alt_u_w s =
     (case strip_prefix ''u/'' s of
        None \<Rightarrow> None
      | Some [] \<Rightarrow> None
      | Some (c # r) \<Rightarrow> if word_char c then strip_prefix ''/'' r else None)"

text \<open>The first group: the six alternatives, tried in the order written.\<close>

definition group1 :: "string \<Rightarrow> string option" where
  "group1 s =
     (case alt_youtu_be s of Some r \<Rightarrow> Some r | None \<Rightarrow>
      case strip_prefix ''v/'' s of Some r \<Rightarrow> Some r | None \<Rightarrow>
      case alt_u_w s of Some r \<Rightarrow> Some r | None \<Rightarrow>
      case strip_prefix ''embed/'' s of Some r \<Rightarrow> Some r | None \<Rightarrow>
      case strip_prefix ''watch?v='' s of Some r \<Rightarrow> Some r | None \<Rightarrow>
      strip_prefix ''&v='' s)"

text \<open>
  The second group \<^verbatim>\<open>([^#&?]*)\<close> is greedy and what follows it, \<^verbatim>\<open>.*\<close> and the end of
  the pattern, matches after any text: the group is the longest run free of
  \<^verbatim>\<open>#\<close>, \<^verbatim>\<open>&\<close> and \<^verbatim>\<open>?\<close>.
\<close>

definition id_char :: "char \<Rightarrow> bool" where
  "id_char c \<longleftrightarrow> c \<noteq> CHR ''#'' \<and> c \<noteq> CHR ''&'' \<and> c \<noteq> CHR ''?''"

definition groups_here :: "string \<Rightarrow> string option" where
  "groups_here s = map_option (takeWhile id_char) (group1 s)"

text \<open>
  \<open>regExp s\<close> is \<^verbatim>\<open>match[2]\<close> of \<^verbatim>\<open>url.match(regExp)\<close>, or \<open>None\<close> when there is no
  match. The leading \<^verbatim>\<open>.*\<close> is greedy: it first takes one more character (one that is
  not a line terminator) and tries the rest of the pattern from there, and only when
  that fails does it try the groups at the present position.
\<close>

fun regExp :: "string \<Rightarrow> string option" where
  "regExp [] = groups_here []"
| "regExp (c # cs) =
     (if line_terminator c then groups_here (c # cs)
      else case regExp cs of Some g \<Rightarrow> Some g | None \<Rightarrow> groups_here (c # cs))"

definition extractVideoId :: "string \<Rightarrow> string option" where
  "extractVideoId url =
     (case regExp url of
        Some m2 \<Rightarrow>
          if length m2 = 11 then Some m2
          else if length url = 11 then Some url else None
      | None \<Rightarrow> if length url = 11 then Some url else None)"

section \<open>The Controller (\<^verbatim>\<open>overlay.js\<close>)\<close>

text \<open>
  ToString, as a template literal applies it, raises TypeError on an object that has an
  own property \<^verbatim>\<open>toString\<close> (a value read from JSON is never callable, and the
  inherited \<^verbatim>\<open>valueOf\<close> returns the object). An array is joined: \<^verbatim>\<open>null\<close> and
  \<^verbatim>\<open>undefined\<close> elements give the empty string, the others are converted in turn.
\<close>

definition nullish :: "jsval \<Rightarrow> bool" where
  "nullish v \<longleftrightarrow> v = JNull \<or> v = JUndefined"

fun to_string_ok :: "jsval \<Rightarrow> bool" where
  "to_string_ok (JObj kvs) = (map_of kvs ''toString'' = None)"
| "to_string_ok (JArr xs) = (\<forall>x \<in> set xs. x = JNull \<or> x = JUndefined \<or> to_string_ok x)"
| "to_string_ok v = True"

text \<open>
  One pass of the \<^verbatim>\<open>forEach\<close> callback of \<^verbatim>\<open>updatePlaylistUI\<close>:
  \<^verbatim>\<open>li.textContent = `${video.title} - ${video.author}`\<close>.
\<close>

definition renders :: "jsval \<Rightarrow> bool" where
  "renders video \<longleftrightarrow>
     (case get_prop video ''title'' of
        Inl e \<Rightarrow> False
      | Inr t \<Rightarrow> to_string_ok t \<and>
          (case get_prop video ''author'' of Inl e \<Rightarrow> False | Inr a \<Rightarrow> to_string_ok a))"

text \<open>The calls made on the YouTube player, the playback capability.\<close>

datatype call =
    LoadVideoById jsval
  | SetVolume jsnum
  | Mute
  | UnMute

text \<open>
  The global variables of the script, the state of the player it reads
  (\<open>muted\<close> is \<^verbatim>\<open>player.isMuted()\<close>, \<open>video_data\<close> the title and author that
  \<^verbatim>\<open>player.getVideoData()\<close> returns, \<open>None\<close> when that call raises), the calls made on
  the player, oldest first, and the parts of the page and of \<^verbatim>\<open>localStorage\<close> that the
  handlers write. The page is taken to have the elements the script looks up. The list
  items, the animation of the marquee, the 3-second timer that repeats
  \<^verbatim>\<open>updateMarquee\<close> while the player plays, and the write of the playlist to
  \<^verbatim>\<open>localStorage\<close> are not part of the state.
\<close>

record controller =
  playlist :: "jsval list"
  currentIndex :: jsnum
  currentVideoId :: jsval
  muted :: bool
  video_data :: "(string \<times> string) option"
  calls :: "call list"
  song_info :: string
  video_url :: string
  volume_slider :: string
  volume_value :: string
  youtubePlayerVolume :: "string option"
  alerts :: "string list"

text \<open>
  A handler returns the state it leaves and the exception it raised, if any: the
  assignments made before a \<^verbatim>\<open>throw\<close> stay.
\<close>

type_synonym 's outcome = "'s \<times> js_error option"

definition and_then :: "'s outcome \<Rightarrow> ('s \<Rightarrow> 's outcome) \<Rightarrow> 's outcome" where
  "and_then r f = (case r of (s, None) \<Rightarrow> f s | (s, Some e) \<Rightarrow> (s, Some e))"

definition updatePlaylistUI :: "controller \<Rightarrow> controller outcome" where
  "updatePlaylistUI s =
     (if \<forall>video \<in> set (playlist s). renders video then (s, None) else (s, Some TypeError))"

definition loadVideo :: "jsnum \<Rightarrow> controller \<Rightarrow> controller outcome" where
  "loadVideo index s =
     (case index of
        NaN \<Rightarrow> (s, None)
      | Num i \<Rightarrow>
          if 0 \<le> i \<and> i < int (length (playlist s)) then
            (let s1 = s\<lparr>currentIndex := Num i\<rparr> in
             case get_prop (playlist s1 ! nat i) ''id'' of
               Inl e \<Rightarrow> (s1, Some e)
             | Inr v \<Rightarrow>
                 updatePlaylistUI
                   (s1\<lparr>currentVideoId := v, calls := calls s1 @ [LoadVideoById v]\<rparr>))
          else (s, None))"

text \<open>
  \<^verbatim>\<open>a % n\<close> for an integer \<open>a\<close> and a positive \<open>n\<close>: the remainder has the sign of
  \<open>a\<close>.
\<close>

definition js_rem :: "int \<Rightarrow> int \<Rightarrow> int" where
  "js_rem a n = (if 0 \<le> a then a mod n else - ((- a) mod n))"

definition playNextVideo :: "controller \<Rightarrow> controller outcome" where
  "playNextVideo s =
     (if length (playlist s) = 0 then (s, None)
      else
        (let s1 = s\<lparr>currentIndex :=
                (case currentIndex s of
                   NaN \<Rightarrow> NaN
                 | Num i \<Rightarrow> Num (js_rem (i + 1) (int (length (playlist s)))))\<rparr>
         in loadVideo (currentIndex s1) s1))"

definition playPreviousVideo :: "controller \<Rightarrow> controller outcome" where
  "playPreviousVideo s =
     (if length (playlist s) = 0 then (s, None)
      else
        (let s1 = s\<lparr>currentIndex :=
                (case currentIndex s of
                   NaN \<Rightarrow> NaN
                 | Num i \<Rightarrow>
                     Num (js_rem (i - 1 + int (length (playlist s))) (int (length (playlist s)))))\<rparr>
         in loadVideo (currentIndex s1) s1))"

definition addToPlaylist :: "string \<Rightarrow> string \<Rightarrow> string \<Rightarrow> controller \<Rightarrow> controller outcome" where
  "addToPlaylist videoId title author s =
     updatePlaylistUI
       (s\<lparr>playlist := playlist s @
            [JObj [(''id'', JStr videoId), (''title'', JStr title), (''author'', JStr author)]]\<rparr>)"

definition addVideoToPlaylist :: "controller \<Rightarrow> controller outcome" where
  "addVideoToPlaylist s =
     (let url = trim (video_url s) in
      if url = [] then (s, None)
      else case extractVideoId url of
        None \<Rightarrow> (s\<lparr>alerts := alerts s @ [''Invalid YouTube URL or ID'']\<rparr>, None)
      | Some videoId \<Rightarrow>
          and_then (addToPlaylist videoId ''Loading...'' ''Loading...'' s)
            (\<lambda>s1. let s2 = s1\<lparr>video_url := []\<rparr> in
                  if length (playlist s2) = 1 then loadVideo (Num 0) s2 else (s2, None)))"

definition addVideoToPlaylistById :: "string \<Rightarrow> controller \<Rightarrow> controller outcome" where
  "addVideoToPlaylistById videoId s =
     and_then (addToPlaylist videoId ''Loading...'' ''Loading...'' s) (loadVideo (Num 0))"

text \<open>
  \<^verbatim>\<open>playlist[currentIndex].title = videoTitle\<close> and the same for the author: an object
  gets or replaces the property; on a string, a number or a boolean the assignment
  does nothing, and on an array it sets a named property that is no part of the list.
\<close>

fun put :: "string \<Rightarrow> jsval \<Rightarrow> (string \<times> jsval) list \<Rightarrow> (string \<times> jsval) list" where
  "put k v [] = [(k, v)]"
| "put k v ((k', v') # kvs) = (if k = k' then (k, v) # kvs else (k', v') # put k v kvs)"



text \<open>\<^verbatim>\<open>event.data\<close> of \<^verbatim>\<open>onStateChange\<close>: one of \<^verbatim>\<open>YT.PlayerState\<close>.\<close>

datatype player_state = UNSTARTED | ENDED | PLAYING | PAUSED | BUFFERING | CUED



text \<open>The state when the script has been read: the initial values of its globals.\<close>

definition initial :: controller where
  "initial = \<lparr>playlist = [], currentIndex = Num 0, currentVideoId = JStr [],
     muted = False, video_data = None, calls = [], song_info = [], video_url = [],
     volume_slider = [], volume_value = [], youtubePlayerVolume = None, alerts = []\<rparr>"

section \<open>\<^verbatim>\<open>JSON.parse\<close>\<close>

text \<open>
  The grammar of JSON texts, read by recursive descent. A parser returns the value and
  the text that follows it, or \<open>Malformed\<close> where \<^verbatim>\<open>JSON.parse\<close> raises
  SyntaxError. \<open>Unmodelled\<close> marks a text that leaves the model: an escape
  \<^verbatim>\<open>\uXXXX\<close> of a code unit above 255. The recursion is bounded by a counter, of
  which a level of nesting uses two and a further element or member one;
  \<open>JSON_parse\<close> starts it above twice the length of the text. \<open>Unmodelled\<close> is also
  the answer when it runs out.
\<close>

datatype 'a parse = Parsed 'a string | Malformed | Unmodelled

definition json_ws :: "char \<Rightarrow> bool" where
  "json_ws c \<longleftrightarrow> code c \<in> {9, 10, 13, 32}"

definition is_digit :: "char \<Rightarrow> bool" where
  "is_digit c \<longleftrightarrow> 48 \<le> code c \<and> code c \<le> 57"

text \<open>The character an escape \<^verbatim>\<open>\c\<close> stands for, \<^verbatim>\<open>\u\<close> apart.\<close>

definition escape :: "char \<Rightarrow> char option" where
  "escape e =
     (if e = CHR 0x22 then Some (CHR 0x22)
      else if e = CHR 0x5C then Some (CHR 0x5C)
      else if e = CHR ''/'' then Some (CHR ''/'')
      else if e = CHR ''b'' then Some (CHR 0x08)
      else if e = CHR ''f'' then Some (CHR 0x0C)
      else if e = CHR ''n'' then Some (CHR 0x0A)
      else if e = CHR ''r'' then Some (CHR 0x0D)
      else if e = CHR ''t'' then Some (CHR 0x09)
      else None)"

definition hex4 :: "string \<Rightarrow> nat option" where
  "hex4 hs = (if list_all (radix_digit 16) hs then Some (digits_value 16 0 hs) else None)"

text \<open>The characters of a string, after its opening quote, up to the closing one.\<close>

fun json_chars :: "string \<Rightarrow> string \<Rightarrow> string parse" where
  "json_chars acc [] = Malformed"
| "json_chars acc (c # cs) =
     (if c = CHR 0x22 then Parsed (rev acc) cs
      else if c = CHR 0x5C then
        (case cs of
           [] \<Rightarrow> Malformed
         | e # r \<Rightarrow>
             if e = CHR ''u'' then
               (case r of
                  h1 # h2 # h3 # h4 # r' \<Rightarrow>
                    (case hex4 [h1, h2, h3, h4] of
                       None \<Rightarrow> Malformed
                     | Some n \<Rightarrow>
                         if n < 256 then json_chars (char_of n # acc) r' else Unmodelled)
                | _ \<Rightarrow> Malformed)
             else
               (case escape e of
                  None \<Rightarrow> Malformed
                | Some x \<Rightarrow> json_chars (x # acc) r))
      else if code c < 32 then Malformed
      else json_chars (c # acc) cs)"

text \<open>
  A number: an optional minus, \<^verbatim>\<open>0\<close> or digits that do not start with \<^verbatim>\<open>0\<close>, an
  optional fraction and an optional exponent. Its value is the decimal number written.
\<close>

definition json_number :: "string \<Rightarrow> jsval parse" where
  "json_number s =
     (let neg = (s \<noteq> [] \<and> hd s = CHR ''-'');
          s1 = (if neg then tl s else s);
          ds = (if s1 \<noteq> [] \<and> hd s1 = CHR ''0'' then ''0'' else takeWhile is_digit s1);
          s2 = drop (length ds) s1;
          has_frac = (s2 \<noteq> [] \<and> hd s2 = CHR ''.'');
          fs = (if has_frac then takeWhile is_digit (tl s2) else []);
          s3 = (if has_frac then drop (length fs) (tl s2) else s2);
          has_exp = (s3 \<noteq> [] \<and> (hd s3 = CHR ''e'' \<or> hd s3 = CHR ''E''));
          s4 = (if has_exp then tl s3 else s3);
          eneg = (has_exp \<and> s4 \<noteq> [] \<and> hd s4 = CHR ''-'');
          s5 = (if has_exp \<and> s4 \<noteq> [] \<and> (hd s4 = CHR ''+'' \<or> hd s4 = CHR ''-'') then tl s4 else s4);
          es = (if has_exp then takeWhile is_digit s5 else []);
          s6 = drop (length es) s5;
          m = real (digits_value 10 0 (ds @ fs));
          e = (if eneg then - int (digits_value 10 0 es) else int (digits_value 10 0 es))
                - int (length fs);
          v = (if 0 \<le> e then m * 10 ^ nat e else m / 10 ^ nat (- e))
      in if ds = [] \<or> (has_frac \<and> fs = []) \<or> (has_exp \<and> es = []) then Malformed
         else Parsed (JNum (if neg then - v else v)) s6)"

text \<open>
  \<open>json_value\<close> reads one value after optional white space; \<open>json_elements\<close> reads the
  elements of an array after its \<^verbatim>\<open>[\<close> and \<open>json_members\<close> the members of an object
  after its \<^verbatim>\<open>{\<close>, both up to the closing bracket. A member whose name occurred
  before replaces the value of that property.
\<close>

fun json_value :: "nat \<Rightarrow> string \<Rightarrow> jsval parse"
  and json_elements :: "nat \<Rightarrow> jsval list \<Rightarrow> string \<Rightarrow> jsval list parse"
  and json_members :: "nat \<Rightarrow> (string \<times> jsval) list \<Rightarrow> string \<Rightarrow> (string \<times> jsval) list parse"
where
  "json_value 0 s = Unmodelled"
| "json_value (Suc n) s =
     (case dropWhile json_ws s of
        [] \<Rightarrow> Malformed
      | c # cs \<Rightarrow>
          if c = CHR ''{'' then
            (case dropWhile json_ws cs of
               [] \<Rightarrow> Malformed
             | d # r \<Rightarrow>
                 if d = CHR ''}'' then Parsed (JObj []) r
                 else (case json_members n [] cs of
                         Parsed kvs r' \<Rightarrow> Parsed (JObj kvs) r'
                       | Malformed \<Rightarrow> Malformed
                       | Unmodelled \<Rightarrow> Unmodelled))
          else if c = CHR ''['' then
            (case dropWhile json_ws cs of
               [] \<Rightarrow> Malformed
             | d # r \<Rightarrow>
                 if d = CHR '']'' then Parsed (JArr []) r
                 else (case json_elements n [] cs of
                         Parsed vs r' \<Rightarrow> Parsed (JArr vs) r'
                       | Malformed \<Rightarrow> Malformed
                       | Unmodelled \<Rightarrow> Unmodelled))
          else if c = CHR 0x22 then
            (case json_chars [] cs of
               Parsed str r \<Rightarrow> Parsed (JStr str) r
             | Malformed \<Rightarrow> Malformed
             | Unmodelled \<Rightarrow> Unmodelled)
          else if c = CHR ''-'' \<or> is_digit c then json_number (c # cs)
          else
            (case strip_prefix ''true'' (c # cs) of
               Some r \<Rightarrow> Parsed (JBool True) r
             | None \<Rightarrow>
            (case strip_prefix ''false'' (c # cs) of
               Some r \<Rightarrow> Parsed (JBool False) r
             | None \<Rightarrow>
            (case strip_prefix ''null'' (c # cs) of
               Some r \<Rightarrow> Parsed JNull r
             | None \<Rightarrow> Malformed))))"
| "json_elements 0 acc s = Unmodelled"
| "json_elements (Suc n) acc s =
     (case json_value n s of
        Parsed v r \<Rightarrow>
          (case dropWhile json_ws r of
             [] \<Rightarrow> Malformed
           | d # r' \<Rightarrow>
               if d = CHR '','' then json_elements n (acc @ [v]) r'
               else if d = CHR '']'' then Parsed (acc @ [v]) r'
               else Malformed)
      | Malformed \<Rightarrow> Malformed
      | Unmodelled \<Rightarrow> Unmodelled)"
| "json_members 0 acc s = Unmodelled"
| "json_members (Suc n) acc s =
     (case dropWhile json_ws s of
        [] \<Rightarrow> Malformed
      | q # cs \<Rightarrow>
          if q \<noteq> CHR 0x22 then Malformed
          else
            (case json_chars [] cs of
               Parsed k r \<Rightarrow>
                 (case dropWhile json_ws r of
                    [] \<Rightarrow> Malformed
                  | d # r' \<Rightarrow>
                      if d \<noteq> CHR '':'' then Malformed
                      else
                        (case json_value n r' of
                           Parsed v r'' \<Rightarrow>
                             (case dropWhile json_ws r'' of
                                [] \<Rightarrow> Malformed
                              | d' # t \<Rightarrow>
                                  if d' = CHR '','' then json_members n (put k v acc) t
                                  else if d' = CHR ''}'' then Parsed (put k v acc) t
                                  else Malformed)
                         | Malformed \<Rightarrow> Malformed
                         | Unmodelled \<Rightarrow> Unmodelled))
             | Malformed \<Rightarrow> Malformed
             | Unmodelled \<Rightarrow> Unmodelled))"

definition JSON_parse :: "string \<Rightarrow> jsval parse" where
  "JSON_parse text =
     (case json_value (2 * length text + 2) text of
        Parsed v r \<Rightarrow> if dropWhile json_ws r = [] then Parsed v [] else Malformed
      | Malformed \<Rightarrow> Malformed
      | Unmodelled \<Rightarrow> Unmodelled)"

section \<open>Restoring the playlist (\<^verbatim>\<open>overlay.js\<close>)\<close>

text \<open>
  \<^verbatim>\<open>loadPlaylistFromStorage\<close> runs once, first thing in \<^verbatim>\<open>onPlayerReady\<close>. Its
  arguments are what \<^verbatim>\<open>localStorage.getItem\<close> returns for \<^verbatim>\<open>youtubePlaylist\<close> and
  \<^verbatim>\<open>currentIndex\<close> (\<open>None\<close> for \<^verbatim>\<open>null\<close>). It has no \<^verbatim>\<open>try\<close>: an exception leaves
  \<^verbatim>\<open>onPlayerReady\<close> before any handler is installed, and the model ends there with
  \<open>Raised\<close>.
\<close>

datatype restored = Restored controller | Raised js_error | Beyond

definition restore_volume :: "controller \<Rightarrow> controller" where
  "restore_volume s =
     (case youtubePlayerVolume s of
        None \<Rightarrow> s
      | Some savedVolume \<Rightarrow>
          (let s1 = s\<lparr>volume_slider := savedVolume, volume_value := savedVolume\<rparr>;
               s2 = s1\<lparr>calls := calls s1 @ [SetVolume (parseInt savedVolume)]\<rparr>
           in if parseInt savedVolume = Num 0
              then s2\<lparr>calls := calls s2 @ [Mute], muted := True\<rparr>
              else s2\<lparr>calls := calls s2 @ [UnMute], muted := False\<rparr>))"

text \<open>\<^verbatim>\<open>playlist = JSON.parse(savedPlaylist)\<close> and \<^verbatim>\<open>playlist.forEach\<close>, which only an array has.\<close>

definition loadPlaylistFromStorage ::
  "string option \<Rightarrow> string option \<Rightarrow> controller \<Rightarrow> restored" where
  "loadPlaylistFromStorage savedPlaylist savedIndex s =
     (let s1 = restore_volume s in
      case savedPlaylist of
        None \<Rightarrow> Restored s1
      | Some text \<Rightarrow>
          if text = [] then Restored s1
          else
            (case JSON_parse text of
               Malformed \<Rightarrow> Raised SyntaxError
             | Unmodelled \<Rightarrow> Beyond
             | Parsed v r \<Rightarrow>
                 (case v of
                    JArr vs \<Rightarrow>
                      (let s2 = s1\<lparr>playlist := vs,
                                  currentIndex :=
                                    (case savedIndex of
                                       None \<Rightarrow> Num 0
                                     | Some i \<Rightarrow> if i = [] then Num 0 else parseInt i)\<rparr>
                       in case and_then (updatePlaylistUI s2)
                            (\<lambda>s3. if length (playlist s3) > 0
                                  then loadVideo (currentIndex s3) s3 else (s3, None)) of
                            (s4, None) \<Rightarrow> Restored s4
                          | (s4, Some e) \<Rightarrow> Raised e)
                  | _ \<Rightarrow> Raised TypeError)))"

section \<open>The Display (the script in \<^verbatim>\<open>overlay.css\<close>)\<close>

text \<open>\<^verbatim>\<open>socket.readyState\<close>\<close>

datatype ready_state = CONNECTING | OPEN | CLOSING | CLOSED

text \<open>
  The text of the marquee \<^verbatim>\<open>#song-info\<close>: one of the fixed notices, or
  \<^verbatim>\<open>`Now Playing: ${videoTitle} by ${author}`\<close>, kept as the two values it is built
  from. Such a text starts with \<^verbatim>\<open>Now Playing: \<close> and so differs from every notice.
\<close>

datatype marquee = Notice string | Now_Playing jsval jsval

text \<open>The callbacks handed to \<^verbatim>\<open>setTimeout\<close>.\<close>

datatype callback = Request_again | Reconnect

text \<open>
  The globals of the script (\<open>readyState\<close> is \<open>None\<close> while \<^verbatim>\<open>socket\<close> is
  \<^verbatim>\<open>null\<close>), the objects sent on the socket as JSON, the timers armed with their
  delays in milliseconds, the calls of \<^verbatim>\<open>autoReconnectWebSocket\<close>, the marquee, the
  values given to the volume controls, and the two entries of \<^verbatim>\<open>localStorage\<close>:
  \<open>stored_playlist\<close> holds the value whose \<^verbatim>\<open>JSON.stringify\<close> is stored and
  \<open>stored_index\<close> the value whose \<^verbatim>\<open>toString()\<close> is stored. Three facts of the page are
  read by the script: whether it has the list \<^verbatim>\<open>#playlist-items\<close>, whether it has the
  volume controls, and whether \<^verbatim>\<open>autoReconnectWebSocket\<close> is a function. The debug
  panel and the animation of the marquee are not part of the state. The handlers are
  those of the one socket that \<^verbatim>\<open>socket\<close> holds. Where the Display has a global or a
  function of the same name as the Controller, the name here starts with \<open>d_\<close>.
\<close>

record display =
  d_playlist :: jsval
  d_currentIndex :: jsval
  reconnectAttempts :: nat
  readyState :: "ready_state option"
  sent :: "jsval list"
  timeouts :: "(callback \<times> real) list"
  discoveries :: nat
  d_song_info :: marquee
  d_volume :: "jsval option"
  stored_playlist :: "jsval option"
  stored_index :: "jsval option"
  has_playlist_items :: bool
  has_volume_controls :: bool
  has_autoReconnect :: bool

definition requestCurrentSongInfo :: jsval where
  "requestCurrentSongInfo = JObj [(''command'', JStr ''requestCurrentSongInfo'')]"

definition connected_notice :: string where
  "connected_notice = ''Connected to music player...''"

definition waiting_notice :: string where
  "waiting_notice = ''Waiting for connection to music player...''"

text \<open>
  \<^verbatim>\<open>connectWebSocket\<close> makes a new socket, which starts in state CONNECTING; the
  constructor is taken not to raise.
\<close>

definition connectWebSocket :: "display \<Rightarrow> display" where
  "connectWebSocket s = s\<lparr>readyState := Some CONNECTING\<rparr>"

text \<open>\<^verbatim>\<open>socket.onopen\<close>: the socket is OPEN when the event fires.\<close>

definition onopen :: "display \<Rightarrow> display" where
  "onopen s =
     (let s1 = s\<lparr>readyState := Some OPEN, d_song_info := Notice connected_notice,
                 reconnectAttempts := 0\<rparr>;
          s2 = s1\<lparr>sent := sent s1 @ [requestCurrentSongInfo]\<rparr>
      in s2\<lparr>timeouts := timeouts s2 @ [(Request_again, 2000)]\<rparr>)"

text \<open>The function given to \<^verbatim>\<open>setTimeout\<close> in \<^verbatim>\<open>onopen\<close>, when the timer fires.\<close>

definition request_again :: "display \<Rightarrow> display" where
  "request_again s =
     (if d_song_info s = Notice connected_notice then
        (if readyState s = Some OPEN then s\<lparr>sent := sent s @ [requestCurrentSongInfo]\<rparr> else s)
      else s)"

text \<open>
  \<^verbatim>\<open>socket.onclose\<close>; the argument is \<^verbatim>\<open>event.wasClean\<close>. The socket is CLOSED when
  the event fires. \<^verbatim>\<open>Math.pow(1.5, reconnectAttempts)\<close> is the power of \<open>3 / 2\<close>.
\<close>

definition onclose :: "bool \<Rightarrow> display \<Rightarrow> display" where
  "onclose wasClean s =
     (let s0 = s\<lparr>readyState := Some CLOSED\<rparr>;
          s4 =
            (if wasClean then s0
             else
               (let delay = min (1000 * (3 / 2) ^ reconnectAttempts s0) 30000;
                    s1 = s0\<lparr>timeouts := timeouts s0 @ [(Reconnect, delay)]\<rparr>;
                    s2 = s1\<lparr>reconnectAttempts := reconnectAttempts s1 + 1\<rparr>
                in if reconnectAttempts s2 \<ge> 3 then
                     (let s3 = (if has_autoReconnect s2
                                then s2\<lparr>discoveries := discoveries s2 + 1\<rparr> else s2)
                      in s3\<lparr>reconnectAttempts := 0\<rparr>)
                   else s2))
      in s4\<lparr>d_song_info := Notice waiting_notice\<rparr>)"

text \<open>The tick of the heartbeat, every 30 seconds.\<close>

definition heartbeat :: "display \<Rightarrow> display" where
  "heartbeat s =
     (if readyState s = Some OPEN then s\<lparr>sent := sent s @ [JObj [(''command'', JStr ''ping'')]]\<rparr>
      else connectWebSocket s)"

text \<open>\<^verbatim>\<open>v.k\<close> of a value \<open>v\<close> that is neither \<^verbatim>\<open>null\<close> nor \<^verbatim>\<open>undefined\<close>.\<close>

definition field :: "jsval \<Rightarrow> string \<Rightarrow> jsval" where
  "field v k = (case get_prop v k of Inl e \<Rightarrow> JUndefined | Inr x \<Rightarrow> x)"

text \<open>\<^verbatim>\<open>updatePlaylistUI\<close> of the Display: \<^verbatim>\<open>forEach\<close> is a function of arrays only.\<close>

definition d_updatePlaylistUI :: "display \<Rightarrow> display outcome" where
  "d_updatePlaylistUI s =
     (if \<not> has_playlist_items s then (s, None)
      else case d_playlist s of
        JArr vs \<Rightarrow> if \<forall>video \<in> set vs. renders video then (s, None) else (s, Some TypeError)
      | _ \<Rightarrow> (s, Some TypeError))"

text \<open>
  \<^verbatim>\<open>savePlaylistToStorage\<close> of the Display. \<^verbatim>\<open>currentIndex.toString()\<close> raises on
  \<^verbatim>\<open>null\<close> and on a value that has no callable \<^verbatim>\<open>toString\<close>; the first entry is
  written by then.
\<close>

definition d_savePlaylistToStorage :: "display \<Rightarrow> display outcome" where
  "d_savePlaylistToStorage s =
     (let s1 = s\<lparr>stored_playlist := Some (d_playlist s)\<rparr> in
      if nullish (d_currentIndex s1) \<or> \<not> to_string_ok (d_currentIndex s1)
      then (s1, Some TypeError)
      else (s1\<lparr>stored_index := Some (d_currentIndex s1)\<rparr>, None))"

text \<open>Building the text of the marquee converts both values to strings.\<close>

definition set_marquee :: "jsval \<Rightarrow> jsval \<Rightarrow> display \<Rightarrow> display outcome" where
  "set_marquee videoTitle author s =
     (if to_string_ok videoTitle \<and> to_string_ok author
      then (s\<lparr>d_song_info := Now_Playing videoTitle author\<rparr>, None)
      else (s, Some TypeError))"

definition updateSongInfo :: "jsval \<Rightarrow> display \<Rightarrow> display outcome" where
  "updateSongInfo data s =
     (if nullish data then (s, Some TypeError)
      else
        (let command = field data ''command''; params = field data ''params'' in
         if command = JStr ''pong'' then (s, None)
         else if command = JStr ''volumeUpdate'' \<and> field data ''value'' \<noteq> JUndefined then
           (if has_volume_controls s then
              (if to_string_ok (field data ''value'')
               then (s\<lparr>d_volume := Some (field data ''value'')\<rparr>, None)
               else (s, Some TypeError))
            else (s, None))
         else if truthy command \<and> truthy params \<and> command = JStr ''nowPlaying''
                 \<and> truthy (field params ''title'') \<and> truthy (field params ''author'') then
           and_then (set_marquee (field params ''title'') (field params ''author'') s)
             (\<lambda>s1. and_then
                (if truthy (field params ''playlist'') then
                   d_updatePlaylistUI
                     (s1\<lparr>d_playlist := field params ''playlist'',
                         d_currentIndex :=
                           (if field params ''currentIndex'' \<noteq> JUndefined
                            then field params ''currentIndex'' else d_currentIndex s1)\<rparr>)
                 else (s1, None))
                d_savePlaylistToStorage)
         else if truthy (field data ''title'') \<and> truthy (field data ''author'') then
           and_then (set_marquee (field data ''title'') (field data ''author'') s)
             (\<lambda>s1. and_then
                (if truthy (field data ''playlist'') \<and> field data ''currentIndex'' \<noteq> JUndefined then
                   d_updatePlaylistUI
                     (s1\<lparr>d_playlist := field data ''playlist'',
                         d_currentIndex := field data ''currentIndex''\<rparr>)
                 else (s1, None))
                d_savePlaylistToStorage)
         else (s, None)))"

text \<open>
  \<^verbatim>\<open>socket.onmessage\<close> once \<^verbatim>\<open>JSON.parse(event.data)\<close> has returned \<open>data\<close>: the
  \<^verbatim>\<open>catch\<close> logs whatever \<^verbatim>\<open>updateSongInfo\<close> raises.
\<close>

definition onmessage :: "jsval \<Rightarrow> display \<Rightarrow> display" where
  "onmessage data s = fst (updateSongInfo data s)"

text \<open>
  A Display that has just been loaded, on a page with the playlist list, the volume
  controls and the helper script, its marquee still empty.
\<close>

definition loaded :: display where
  "loaded = \<lparr>d_playlist = JArr [], d_currentIndex = JNum 0, reconnectAttempts = 0,
     readyState = None, sent = [], timeouts = [], discoveries = 0,
     d_song_info = Notice [], d_volume = None, stored_playlist = None, stored_index = None,
     has_playlist_items = True, has_volume_controls = True, has_autoReconnect = True\<rparr>"

section \<open>The properties\<close>

text \<open>The cursor of the Controller is an index of its playlist, unless that is empty.\<close>

definition cursor_valid :: "controller \<Rightarrow> bool" where
  "cursor_valid s \<longleftrightarrow>
     (playlist s = [] \<or>
      (case currentIndex s of NaN \<Rightarrow> False | Num i \<Rightarrow> 0 \<le> i \<and> i < int (length (playlist s))))"

text \<open>The same for the replica of a Display, whose playlist and cursor are any values.\<close>

definition d_cursor_valid :: "display \<Rightarrow> bool" where
  "d_cursor_valid s \<longleftrightarrow>
     (case d_playlist s of
        JArr vs \<Rightarrow>
          vs = [] \<or>
          (case d_currentIndex s of
             JNum r \<Rightarrow> 0 \<le> r \<and> r < real (length vs) \<and> real_of_int \<lfloor>r\<rfloor> = r
           | _ \<Rightarrow> False)
      | _ \<Rightarrow> False)"





text \<open>
  The numbers that the model holds as the script does: a whole number up to \<open>2 ^ 53\<close> in
  magnitude is a double, so \<^verbatim>\<open>parseInt\<close> returns it exactly.
\<close>

definition safe :: "jsnum \<Rightarrow> bool" where
  "safe x \<longleftrightarrow> (case x of NaN \<Rightarrow> True | Num n \<Rightarrow> - (2 ^ 53) \<le> n \<and> n \<le> 2 ^ 53)"

text \<open>
  What a message gives the replica, in the words of the protocol: the playlist it
  carries and the cursor it carries, if any. A tagged \<^verbatim>\<open>nowPlaying\<close> message counts
  when its parameters hold a title and an author, both with a text form, and a playlist;
  its cursor may be missing. A message of another kind counts when it holds at top level
  a title, an author, a playlist and a cursor. A \<^verbatim>\<open>pong\<close> and a volume update carry
  nothing.
\<close>

definition snapshot_of :: "jsval \<Rightarrow> (jsval \<times> jsval option) option" where
  "snapshot_of data =
     (if nullish data \<or> field data ''command'' = JStr ''pong''
         \<or> (field data ''command'' = JStr ''volumeUpdate'' \<and> field data ''value'' \<noteq> JUndefined)
      then None
      else if field data ''command'' = JStr ''nowPlaying'' \<and> truthy (field data ''params'')
              \<and> truthy (field (field data ''params'') ''title'')
              \<and> truthy (field (field data ''params'') ''author'') then
        (if to_string_ok (field (field data ''params'') ''title'')
            \<and> to_string_ok (field (field data ''params'') ''author'')
            \<and> truthy (field (field data ''params'') ''playlist'')
         then Some (field (field data ''params'') ''playlist'',
                if field (field data ''params'') ''currentIndex'' = JUndefined then None
                else Some (field (field data ''params'') ''currentIndex''))
         else None)
      else if truthy (field data ''title'') \<and> truthy (field data ''author'')
              \<and> to_string_ok (field data ''title'') \<and> to_string_ok (field data ''author'')
              \<and> truthy (field data ''playlist'') \<and> field data ''currentIndex'' \<noteq> JUndefined
      then Some (field data ''playlist'', Some (field data ''currentIndex''))
      else None)"

text \<open>The replica of a Display: title and author, playlist, cursor.\<close>

definition replica :: "display \<Rightarrow> marquee \<times> jsval \<times> jsval" where
  "replica s = (d_song_info s, d_playlist s, d_currentIndex s)"

text \<open>\<open>closes k\<close>: \<open>k\<close> attempts to connect in a row, each ended by an unclean close.\<close>

fun closes :: "nat \<Rightarrow> display \<Rightarrow> display" where
  "closes 0 s = s"
| "closes (Suc k) s = onclose False (connectWebSocket (closes k s))"


text \<open>
  The shapes of a URL as the specification names them. A marker is one of the six texts
  after which an identifier is looked for; \<open>url_shape url g\<close> says that \<open>g\<close> is what
  follows the last marker of \<open>url\<close>, up to the next \<^verbatim>\<open>#\<close>, \<^verbatim>\<open>&\<close> or \<^verbatim>\<open>?\<close>, where
  a marker counts only if no line terminator stands before it.
\<close>

definition marker :: "string \<Rightarrow> bool" where
  "marker m \<longleftrightarrow>
     (\<exists>c. \<not> line_terminator c \<and> m = ''youtu'' @ [c] @ ''be/'')
     \<or> m = ''v/''
     \<or> (\<exists>w. word_char w \<and> m = ''u/'' @ [w] @ ''/'')
     \<or> m = ''embed/''
     \<or> m = ''watch?v=''
     \<or> m = ''&v=''"

definition marker_at :: "string \<Rightarrow> string \<Rightarrow> string \<Rightarrow> string \<Rightarrow> bool" where
  "marker_at url p m r \<longleftrightarrow>
     url = p @ m @ r \<and> marker m \<and> (\<forall>c \<in> set p. \<not> line_terminator c)"

definition url_shape :: "string \<Rightarrow> string \<Rightarrow> bool" where
  "url_shape url g \<longleftrightarrow>
     (\<exists>p m r. marker_at url p m r \<and> g = takeWhile id_char r
        \<and> (\<forall>p' m' r'. marker_at url p' m' r' \<longrightarrow> length p' \<le> length p))"

section \<open>Reconnection of the Display\<close>

lemma onclose_unclean:
  "onclose False s =
     (if reconnectAttempts s < 2
      then s\<lparr>readyState := Some CLOSED,
             timeouts := timeouts s @ [(Reconnect, min (1000 * (3 / 2) ^ reconnectAttempts s) 30000)],
             reconnectAttempts := reconnectAttempts s + 1,
             d_song_info := Notice waiting_notice\<rparr>
      else s\<lparr>readyState := Some CLOSED,
             timeouts := timeouts s @ [(Reconnect, min (1000 * (3 / 2) ^ reconnectAttempts s) 30000)],
             discoveries := (if has_autoReconnect s then discoveries s + 1 else discoveries s),
             reconnectAttempts := 0,
             d_song_info := Notice waiting_notice\<rparr>)"
  by (simp add: onclose_def Let_def)

lemma closes_fields:
  "reconnectAttempts s = 0 \<Longrightarrow>
     reconnectAttempts (closes k s) = k mod 3 \<and>
     timeouts (closes k s) = timeouts s @ map (\<lambda>j. (Reconnect, 1000 * (3 / 2) ^ (j mod 3))) [0..<k] \<and>
     discoveries (closes k s) = discoveries s + (if has_autoReconnect s then k div 3 else 0) \<and>
     has_autoReconnect (closes k s) = has_autoReconnect s"
proof (induction k)
  case 0
  then show ?case by simp
next
  case (Suc k)
  have m: "k mod 3 = 0 \<or> k mod 3 = 1 \<or> k mod 3 = 2" by arith
  have p: "min (1000 * (3 / 2) ^ (k mod 3)) 30000 = (1000 * (3 / 2) ^ (k mod 3) :: real)"
    using m by (auto simp: power2_eq_square)
  show ?case
  proof (cases "k mod 3 < 2")
    case True
    then have "Suc k mod 3 = k mod 3 + 1" "Suc k div 3 = k div 3" by arith+
    with Suc True p show ?thesis by (simp add: onclose_unclean connectWebSocket_def)
  next
    case False
    then have "Suc k mod 3 = 0" "Suc k div 3 = k div 3 + 1" by arith+
    with Suc False p show ?thesis by (simp add: onclose_unclean connectWebSocket_def)
  qed
qed

lemma backoff_bound: "1000 * (3 / 2) ^ (j mod 3) \<le> (30000 :: real)"
proof -
  have "j mod 3 = 0 \<or> j mod 3 = 1 \<or> j mod 3 = 2" by arith
  then show ?thesis by (auto simp: power2_eq_square)
qed

text \<open>
  C5. On each unclean close the Display arms a reconnect after
  \<open>min (1000 * 1.5 ^ attempts) 30000\<close> milliseconds and then increments the counter; a
  clean close arms nothing. From a counter of 0, consecutive unclean closes give the
  delays 1000, 1500, 2250, none above 30000; at the third failure the discovery helper
  is called, on a page that has it, and the counter is back at 0, so the delays repeat.
\<close>

theorem reconnect_backoff:
  assumes "reconnectAttempts s = 0" and "has_autoReconnect s"
  shows "timeouts (onclose False t) =
           timeouts t @ [(Reconnect, min (1000 * (3 / 2) ^ reconnectAttempts t) 30000)]
       \<and> timeouts (onclose True t) = timeouts t
       \<and> timeouts (closes k s) =
           timeouts s @ map (\<lambda>j. (Reconnect, min (1000 * (3 / 2) ^ (j mod 3)) 30000)) [0..<k]
       \<and> timeouts (closes 3 s) =
           timeouts s @ [(Reconnect, 1000), (Reconnect, 1500), (Reconnect, 2250)]
       \<and> reconnectAttempts (closes k s) = k mod 3
       \<and> discoveries (closes k s) = discoveries s + k div 3
       \<and> reconnectAttempts (closes 2 s) = 2 \<and> discoveries (closes 2 s) = discoveries s
       \<and> reconnectAttempts (closes 3 s) = 0 \<and> discoveries (closes 3 s) = discoveries s + 1"
proof -
  have step: "timeouts (onclose False t) =
           timeouts t @ [(Reconnect, min (1000 * (3 / 2) ^ reconnectAttempts t) 30000)]"
    by (simp add: onclose_unclean)
  have clean: "timeouts (onclose True t) = timeouts t"
    by (simp add: onclose_def)
  have m: "(\<lambda>j. (Reconnect, min (1000 * (3 / 2) ^ (j mod 3)) (30000::real)))
         = (\<lambda>j. (Reconnect, 1000 * (3 / 2) ^ (j mod 3)))"
    using backoff_bound by (auto simp: fun_eq_iff min_def)
  have three: "[0..<3] = [0, 1, 2]" by (simp add: upt_rec)
  note f = closes_fields [OF assms(1)]
  have t3: "timeouts (closes 3 s) =
           timeouts s @ [(Reconnect, 1000), (Reconnect, 1500), (Reconnect, 2250)]"
    using f [of 3] by (simp add: three power2_eq_square)
  show ?thesis
    using step clean t3 f [of k] f [of 2] f [of 3] assms(2) by (simp add: m)
qed

theorem reconnect_backoff_witness:
  "reconnectAttempts loaded = 0 \<and> has_autoReconnect loaded
   \<and> map snd (timeouts (closes 5 loaded)) = [1000, 1500, 2250, 1000, 1500]
   \<and> reconnectAttempts (closes 5 loaded) = 2 \<and> discoveries (closes 5 loaded) = 1
   \<and> timeouts (onclose False loaded) = [(Reconnect, 1000)]"
proof -
  have a: "reconnectAttempts loaded = 0" and b: "has_autoReconnect loaded"
    by (simp_all add: loaded_def)
  have five: "[0..<5] = [0, 1, 2, 3, 4]" by (simp add: upt_rec)
  show ?thesis
    using a b reconnect_backoff [OF a b, of loaded 5]
    by (simp add: five loaded_def power2_eq_square onclose_unclean)
qed

section \<open>Applying a snapshot\<close>

lemma and_then_None: "and_then (s, None) f = f s"
  by (simp add: and_then_def)

lemma and_then_Some: "and_then (s, Some e) f = (s, Some e)"
  by (simp add: and_then_def)

lemmas and_then_simps = and_then_None and_then_Some

lemma ui_fst: "fst (d_updatePlaylistUI s) = s"
  by (simp add: d_updatePlaylistUI_def split: jsval.splits)

lemma ui_snd_cong:
  "has_playlist_items s = has_playlist_items s' \<Longrightarrow> d_playlist s = d_playlist s' \<Longrightarrow>
   snd (d_updatePlaylistUI s) = snd (d_updatePlaylistUI s')"
  by (simp add: d_updatePlaylistUI_def split: jsval.splits)

lemma ui_eq: "d_updatePlaylistUI s = (s, snd (d_updatePlaylistUI s))"
  using ui_fst [of s] by (metis prod.collapse)

lemma snapshot_twice:
  fixes f :: "display \<Rightarrow> jsval" and t a pl :: jsval and p :: bool
  assumes f: "\<And>x y. d_currentIndex y = f x \<Longrightarrow> f y = f x"
  defines "ap \<equiv> \<lambda>s. and_then (set_marquee t a s)
     (\<lambda>s1. and_then
        (if p then d_updatePlaylistUI (s1\<lparr>d_playlist := pl, d_currentIndex := f s1\<rparr>)
         else (s1, None))
        d_savePlaylistToStorage)"
  shows "ap (fst (ap s)) = ap s"
proof (cases "to_string_ok t \<and> to_string_ok a")
  case False
  then have "\<And>x. set_marquee t a x = (x, Some TypeError)"
    by (auto simp: set_marquee_def)
  then show ?thesis by (simp add: ap_def and_then_simps)
next
  case ok: True
  define s1 where "s1 = s\<lparr>d_song_info := Now_Playing t a\<rparr>"
  have m: "\<And>x. set_marquee t a x = (x\<lparr>d_song_info := Now_Playing t a\<rparr>, None)"
    using ok by (simp add: set_marquee_def)
  show ?thesis
  proof (cases p)
    case False
    then show ?thesis
      by (simp add: ap_def m and_then_simps d_savePlaylistToStorage_def Let_def)
  next
    case p: True
    define s2 where "s2 = s1\<lparr>d_playlist := pl, d_currentIndex := f s1\<rparr>"
    have fs2: "f s2 = f s1" by (rule f) (simp add: s2_def)
    have fs2': "f (s2\<lparr>d_song_info := Now_Playing t a\<rparr>) = f s1" by (rule f) (simp add: s2_def)
    have again: "s2\<lparr>d_song_info := Now_Playing t a, d_playlist := pl, d_currentIndex := f s1\<rparr> = s2"
      by (simp add: s2_def s1_def)
    show ?thesis
    proof (cases "snd (d_updatePlaylistUI s2)")
      case (Some e)
      have first: "ap s = (s2, Some e)"
        using Some ui_eq [of s2] by (simp add: ap_def m and_then_simps p s2_def s1_def)
      have "ap s2 = (s2, Some e)"
        using Some ui_eq [of s2] by (simp add: ap_def m and_then_simps p fs2' again)
      with first show ?thesis by simp
    next
      case None
      have first: "ap s = d_savePlaylistToStorage s2"
        using None ui_eq [of s2] by (simp add: ap_def m and_then_simps p s2_def s1_def)
      have second: "\<And>x. has_playlist_items x = has_playlist_items s2 \<Longrightarrow>
           x\<lparr>d_song_info := Now_Playing t a, d_playlist := pl, d_currentIndex := f s1\<rparr> = x \<Longrightarrow>
           f (x\<lparr>d_song_info := Now_Playing t a\<rparr>) = f s1 \<Longrightarrow>
           ap x = d_savePlaylistToStorage x"
      proof -
        fix x assume h: "has_playlist_items x = has_playlist_items s2"
          and e: "x\<lparr>d_song_info := Now_Playing t a, d_playlist := pl, d_currentIndex := f s1\<rparr> = x"
          and g: "f (x\<lparr>d_song_info := Now_Playing t a\<rparr>) = f s1"
        have "d_playlist x =
            d_playlist (x\<lparr>d_song_info := Now_Playing t a, d_playlist := pl, d_currentIndex := f s1\<rparr>)"
          by (simp only: e)
        then have "d_playlist x = d_playlist s2"
          by (simp add: s2_def)
        then have "snd (d_updatePlaylistUI x) = None"
          using None ui_snd_cong [OF h] by simp
        then show "ap x = d_savePlaylistToStorage x"
          using ui_eq [of x] by (simp add: ap_def m and_then_simps p g e)
      qed
      show ?thesis
      proof (cases "nullish (d_currentIndex s2) \<or> \<not> to_string_ok (d_currentIndex s2)")
        case True
        then have r: "d_savePlaylistToStorage s2 = (s2\<lparr>stored_playlist := Some pl\<rparr>, Some TypeError)"
          by (simp add: d_savePlaylistToStorage_def Let_def s2_def)
        have "ap (s2\<lparr>stored_playlist := Some pl\<rparr>) = d_savePlaylistToStorage (s2\<lparr>stored_playlist := Some pl\<rparr>)"
          by (rule second) (simp_all add: s2_def s1_def f)
        also have "\<dots> = (s2\<lparr>stored_playlist := Some pl\<rparr>, Some TypeError)"
          using True by (simp add: d_savePlaylistToStorage_def Let_def s2_def)
        finally show ?thesis using first r by simp
      next
        case False
        define s3 where "s3 = s2\<lparr>stored_playlist := Some pl, stored_index := Some (f s1)\<rparr>"
        from False have r: "d_savePlaylistToStorage s2 = (s3, None)"
          by (simp add: d_savePlaylistToStorage_def Let_def s2_def s3_def)
        have "ap s3 = d_savePlaylistToStorage s3"
          by (rule second) (simp_all add: s3_def s2_def s1_def f)
        also have "\<dots> = (s3, None)"
          using False by (simp add: d_savePlaylistToStorage_def Let_def s2_def s3_def)
        finally show ?thesis using first r by simp
      qed
    qed
  qed
qed


text \<open>
  C6. Applying a message twice leaves the Display as applying it once: for every
  message and every state, tagged \<^verbatim>\<open>nowPlaying\<close> and bare snapshots among them, the
  second run of \<^verbatim>\<open>updateSongInfo\<close> returns the state the first one left (marquee,
  playlist, cursor and the stored copy) and raises what the first one raised.
\<close>

theorem snapshot_idempotent:
  "updateSongInfo data (fst (updateSongInfo data s)) = updateSongInfo data s
   \<and> onmessage data (onmessage data s) = onmessage data s
   \<and> replica (onmessage data (onmessage data s)) = replica (onmessage data s)"
proof -
  let ?volume = "field data ''command'' = JStr ''volumeUpdate'' \<and> field data ''value'' \<noteq> JUndefined"
  let ?tagged = "truthy (field data ''command'') \<and> truthy (field data ''params'')
     \<and> field data ''command'' = JStr ''nowPlaying''
     \<and> truthy (field (field data ''params'') ''title'')
     \<and> truthy (field (field data ''params'') ''author'')"
  let ?bare = "truthy (field data ''title'') \<and> truthy (field data ''author'')"
  have twice: "updateSongInfo data (fst (updateSongInfo data s)) = updateSongInfo data s"
  proof (cases "nullish data \<or> field data ''command'' = JStr ''pong''")
    case True
    then have "\<And>x. updateSongInfo data x = (x, if nullish data then Some TypeError else None)"
      by (auto simp: updateSongInfo_def Let_def)
    then show ?thesis by simp
  next
    case False
    then have n: "nullish data = False" "(field data ''command'' = JStr ''pong'') = False"
      by simp_all
    show ?thesis
    proof (cases ?volume)
      case True
      then have v: "?volume = True" by simp
      have "\<And>x. updateSongInfo data x =
          (if has_volume_controls x then
              (if to_string_ok (field data ''value'')
               then (x\<lparr>d_volume := Some (field data ''value'')\<rparr>, None)
               else (x, Some TypeError))
            else (x, None))"
        by (simp only: updateSongInfo_def Let_def n v if_True if_False)
      then show ?thesis by simp
    next
      case False
      then have v: "?volume = False" by simp
      show ?thesis
      proof (cases ?tagged)
        case True
        then have t: "?tagged = True" by simp
        have "\<And>x. updateSongInfo data x =
           and_then (set_marquee (field (field data ''params'') ''title'')
               (field (field data ''params'') ''author'') x)
             (\<lambda>s1. and_then
                (if truthy (field (field data ''params'') ''playlist'') then
                   d_updatePlaylistUI
                     (s1\<lparr>d_playlist := field (field data ''params'') ''playlist'',
                         d_currentIndex :=
                           (if field (field data ''params'') ''currentIndex'' \<noteq> JUndefined
                            then field (field data ''params'') ''currentIndex''
                            else d_currentIndex s1)\<rparr>)
                 else (s1, None))
                d_savePlaylistToStorage)"
          by (simp only: updateSongInfo_def Let_def n v t if_True if_False)
        then show ?thesis
          using snapshot_twice [of "\<lambda>s1. if field (field data ''params'') ''currentIndex'' \<noteq> JUndefined
                            then field (field data ''params'') ''currentIndex''
                            else d_currentIndex s1"]
          by simp
      next
        case False
        then have t: "?tagged = False" by simp
        show ?thesis
        proof (cases ?bare)
          case True
          then have b: "?bare = True" by simp
          have "\<And>x. updateSongInfo data x =
             and_then (set_marquee (field data ''title'') (field data ''author'') x)
             (\<lambda>s1. and_then
                (if truthy (field data ''playlist'') \<and> field data ''currentIndex'' \<noteq> JUndefined then
                   d_updatePlaylistUI
                     (s1\<lparr>d_playlist := field data ''playlist'',
                         d_currentIndex := field data ''currentIndex''\<rparr>)
                 else (s1, None))
                d_savePlaylistToStorage)"
            by (simp only: updateSongInfo_def Let_def n v t b if_True if_False)
          then show ?thesis
            using snapshot_twice [of "\<lambda>s1. field data ''currentIndex''"] by simp
        next
          case False
          then have b: "?bare = False" by simp
          have "\<And>x. updateSongInfo data x = (x, None)"
            by (simp only: updateSongInfo_def Let_def n v t b if_True if_False)
          then show ?thesis by simp
        qed
      qed
    qed
  qed
  then show ?thesis by (simp add: onmessage_def)
qed

theorem snapshot_idempotent_witness:
  "replica (onmessage (JObj [(''title'', JStr ''Song''), (''author'', JStr ''Band''),
       (''playlist'', JArr [JObj [(''id'', JStr ''dQw4w9WgXcQ'')]]), (''currentIndex'', JNum 0)])
     (onmessage (JObj [(''title'', JStr ''Song''), (''author'', JStr ''Band''),
       (''playlist'', JArr [JObj [(''id'', JStr ''dQw4w9WgXcQ'')]]), (''currentIndex'', JNum 0)]) loaded))
   = (Now_Playing (JStr ''Song'') (JStr ''Band''), JArr [JObj [(''id'', JStr ''dQw4w9WgXcQ'')]], JNum 0)"
proof -
  have "replica (onmessage (JObj [(''title'', JStr ''Song''), (''author'', JStr ''Band''),
       (''playlist'', JArr [JObj [(''id'', JStr ''dQw4w9WgXcQ'')]]), (''currentIndex'', JNum 0)]) loaded)
   = (Now_Playing (JStr ''Song'') (JStr ''Band''), JArr [JObj [(''id'', JStr ''dQw4w9WgXcQ'')]], JNum 0)"
    by (simp add: replica_def onmessage_def updateSongInfo_def field_def nullish_def loaded_def
        set_marquee_def and_then_simps d_updatePlaylistUI_def d_savePlaylistToStorage_def
        renders_def)
  then show ?thesis
    using snapshot_idempotent [of "JObj [(''title'', JStr ''Song''), (''author'', JStr ''Band''),
       (''playlist'', JArr [JObj [(''id'', JStr ''dQw4w9WgXcQ'')]]), (''currentIndex'', JNum 0)]" loaded]
    by simp
qed

section \<open>The second request after an open\<close>

lemma onmessage_sent: "sent (onmessage data s) = sent s"
proof -
  have u: "\<And>x. sent (fst (d_updatePlaylistUI x)) = sent x"
    by (simp add: ui_fst)
  have sv: "\<And>x. sent (fst (d_savePlaylistToStorage x)) = sent x"
    by (simp add: d_savePlaylistToStorage_def Let_def)
  have sm: "\<And>t a x. sent (fst (set_marquee t a x)) = sent x"
    by (simp add: set_marquee_def)
  have at: "\<And>r f. (\<And>x. sent (fst (f x)) = sent x) \<Longrightarrow> sent (fst (and_then r f)) = sent (fst r)"
    by (auto simp: and_then_def split: prod.splits option.splits)
  show ?thesis
    by (simp add: onmessage_def updateSongInfo_def Let_def at sm sv u)
qed

lemma onmessage_readyState: "readyState (onmessage data s) = readyState s"
proof -
  have u: "\<And>x. readyState (fst (d_updatePlaylistUI x)) = readyState x"
    by (simp add: ui_fst)
  have sv: "\<And>x. readyState (fst (d_savePlaylistToStorage x)) = readyState x"
    by (simp add: d_savePlaylistToStorage_def Let_def)
  have sm: "\<And>t a x. readyState (fst (set_marquee t a x)) = readyState x"
    by (simp add: set_marquee_def)
  have at: "\<And>r f. (\<And>x. readyState (fst (f x)) = readyState x) \<Longrightarrow>
      readyState (fst (and_then r f)) = readyState (fst r)"
    by (auto simp: and_then_def split: prod.splits option.splits)
  show ?thesis
    by (simp add: onmessage_def updateSongInfo_def Let_def at sm sv u)
qed

text \<open>
  C9, as stated, fails: when the channel has closed, or is closing, before the timer
  fires, no snapshot has been rendered and yet nothing is sent again.
\<close>

theorem request_again_counterexample:
  "d_song_info (onclose False (onopen loaded)) = Notice waiting_notice
   \<and> sent (request_again (onclose False (onopen loaded))) = sent (onclose False (onopen loaded))
   \<and> d_song_info ((onopen loaded)\<lparr>readyState := Some CLOSING\<rparr>) = Notice connected_notice
   \<and> sent (request_again ((onopen loaded)\<lparr>readyState := Some CLOSING\<rparr>)) = [requestCurrentSongInfo]"
  by (simp add: onclose_def onopen_def request_again_def loaded_def Let_def
      waiting_notice_def connected_notice_def)

text \<open>
  C9, amended. On open the Display sends one \<^verbatim>\<open>requestCurrentSongInfo\<close> and arms one timer
  of 2000 ms. When the timer fires, one more request is sent if the marquee still shows
  the notice written on open and the socket is open, and nothing is sent otherwise: not
  when a snapshot has been rendered, and not when the channel has closed. A message
  between the open and the timer leaves one request in all if it rendered a snapshot,
  and two if the marquee still shows the notice.
\<close>

theorem request_again_once:
  "sent (onopen s) = sent s @ [requestCurrentSongInfo]
   \<and> timeouts (onopen s) = timeouts s @ [(Request_again, 2000)]
   \<and> sent (request_again (onopen s)) = sent s @ [requestCurrentSongInfo, requestCurrentSongInfo]
   \<and> (d_song_info t = Notice connected_notice \<and> readyState t = Some OPEN \<longrightarrow>
        sent (request_again t) = sent t @ [requestCurrentSongInfo])
   \<and> (d_song_info t \<noteq> Notice connected_notice \<or> readyState t \<noteq> Some OPEN \<longrightarrow> request_again t = t)
   \<and> (d_song_info (onmessage data (onopen s)) = Now_Playing videoTitle author \<longrightarrow>
        sent (request_again (onmessage data (onopen s))) = sent s @ [requestCurrentSongInfo])
   \<and> (d_song_info (onmessage data (onopen s)) = Notice connected_notice \<longrightarrow>
        sent (request_again (onmessage data (onopen s)))
          = sent s @ [requestCurrentSongInfo, requestCurrentSongInfo])"
proof -
  have o: "sent (onopen s) = sent s @ [requestCurrentSongInfo]" "readyState (onopen s) = Some OPEN"
    by (simp_all add: onopen_def Let_def)
  have m: "sent (onmessage data (onopen s)) = sent s @ [requestCurrentSongInfo]"
    "readyState (onmessage data (onopen s)) = Some OPEN"
    using o by (simp_all add: onmessage_sent onmessage_readyState)
  show ?thesis
    using m by (simp add: onopen_def request_again_def Let_def)
qed

theorem request_again_once_witness:
  "d_song_info (onopen loaded) = Notice connected_notice \<and> readyState (onopen loaded) = Some OPEN
   \<and> sent (request_again (onopen loaded)) = [requestCurrentSongInfo, requestCurrentSongInfo]
   \<and> d_song_info (onmessage (JObj [(''title'', JStr ''Song''), (''author'', JStr ''Band'')]) (onopen loaded))
       = Now_Playing (JStr ''Song'') (JStr ''Band'')
   \<and> sent (request_again (onmessage (JObj [(''title'', JStr ''Song''), (''author'', JStr ''Band'')])
        (onopen loaded))) = [requestCurrentSongInfo]"
proof -
  have a: "d_song_info (onmessage (JObj [(''title'', JStr ''Song''), (''author'', JStr ''Band'')]) (onopen loaded))
       = Now_Playing (JStr ''Song'') (JStr ''Band'')"
    by (simp add: onmessage_def updateSongInfo_def field_def nullish_def loaded_def onopen_def
        set_marquee_def and_then_simps d_savePlaylistToStorage_def Let_def)
  have b: "d_song_info (onopen loaded) = Notice connected_notice \<and> readyState (onopen loaded) = Some OPEN"
    by (simp add: onopen_def Let_def)
  show ?thesis
    using a b
      request_again_once [of loaded "onopen loaded"
        "JObj [(''title'', JStr ''Song''), (''author'', JStr ''Band'')]" "JStr ''Song''" "JStr ''Band''"]
    by (simp add: loaded_def)
qed

section \<open>Loading and moving the cursor\<close>

lemma ui_controller: "updatePlaylistUI s = (s, if \<forall>video \<in> set (playlist s). renders video then None else Some TypeError)"
  by (simp add: updatePlaylistUI_def)

lemma renders_not_nullish: "renders v \<Longrightarrow> get_prop v k = Inr (field v k)"
  by (cases v) (auto simp: renders_def field_def split: option.splits)

lemma renders_entry:
  "renders (JObj [(''id'', JStr videoId), (''title'', JStr title), (''author'', JStr author)])"
  by (simp add: renders_def)

lemma loadVideo_fst:
  "playlist (fst (loadVideo index s)) = playlist s"
  by (auto simp: loadVideo_def ui_controller Let_def split: jsnum.splits sum.splits)

lemma loadVideo_valid:
  assumes "0 \<le> i" "i < int (length (playlist s))" "\<forall>video \<in> set (playlist s). renders video"
  shows "loadVideo (Num i) s =
    (s\<lparr>currentIndex := Num i, currentVideoId := field (playlist s ! nat i) ''id'',
       calls := calls s @ [LoadVideoById (field (playlist s ! nat i) ''id'')]\<rparr>, None)"
proof -
  have "renders (playlist s ! nat i)" using assms by simp
  then have "get_prop (playlist s ! nat i) ''id'' = Inr (field (playlist s ! nat i) ''id'')"
    by (rule renders_not_nullish)
  then show ?thesis using assms by (simp add: loadVideo_def ui_controller Let_def)
qed

text \<open>
  C10. A video added through the input to an empty playlist is loaded at once: the
  playlist is the new entry, the cursor is 0 and \<^verbatim>\<open>loadVideoById\<close> is called with its
  identifier, with no further command. \<^verbatim>\<open>addVideoToPlaylistById\<close> appends and then loads
  index 0, the first entry of the list, whatever was there before (the entries render,
  as they do in every state the page reaches).
\<close>

theorem first_video_loads:
  "(playlist s = [] \<and> extractVideoId (trim (video_url s)) = Some videoId \<longrightarrow>
      addVideoToPlaylist s =
        (s\<lparr>playlist := [JObj [(''id'', JStr videoId), (''title'', JStr ''Loading...''),
                              (''author'', JStr ''Loading...'')]],
           video_url := [], currentIndex := Num 0, currentVideoId := JStr videoId,
           calls := calls s @ [LoadVideoById (JStr videoId)]\<rparr>, None))
   \<and> ((\<forall>video \<in> set (playlist s). renders video) \<longrightarrow>
      addVideoToPlaylistById v s =
        (s\<lparr>playlist := playlist s @ [JObj [(''id'', JStr v), (''title'', JStr ''Loading...''),
                              (''author'', JStr ''Loading...'')]],
           currentIndex := Num 0,
           currentVideoId := field ((playlist s @ [JObj [(''id'', JStr v),
              (''title'', JStr ''Loading...''), (''author'', JStr ''Loading...'')]]) ! 0) ''id'',
           calls := calls s @ [LoadVideoById (field ((playlist s @ [JObj [(''id'', JStr v),
              (''title'', JStr ''Loading...''), (''author'', JStr ''Loading...'')]]) ! 0) ''id'')]\<rparr>,
         None))"
proof (intro conjI impI)
  assume a: "playlist s = [] \<and> extractVideoId (trim (video_url s)) = Some videoId"
  have "extractVideoId [] = None" by (simp add: extractVideoId_def groups_here_def group1_def alt_youtu_be_def alt_u_w_def)
  with a have ne: "trim (video_url s) \<noteq> []" by auto
  let ?e = "JObj [(''id'', JStr videoId), (''title'', JStr ''Loading...''), (''author'', JStr ''Loading...'')]"
  have add: "addToPlaylist videoId ''Loading...'' ''Loading...'' s = (s\<lparr>playlist := [?e]\<rparr>, None)"
    using a by (simp add: addToPlaylist_def ui_controller renders_entry)
  have load: "loadVideo (Num 0) (s\<lparr>playlist := [?e], video_url := []\<rparr>) =
      (s\<lparr>playlist := [?e], video_url := [], currentIndex := Num 0, currentVideoId := JStr videoId,
         calls := calls s @ [LoadVideoById (JStr videoId)]\<rparr>, None)"
    by (simp add: loadVideo_def ui_controller renders_entry Let_def)
  show "addVideoToPlaylist s =
        (s\<lparr>playlist := [?e], video_url := [], currentIndex := Num 0, currentVideoId := JStr videoId,
           calls := calls s @ [LoadVideoById (JStr videoId)]\<rparr>, None)"
    using a ne by (simp add: addVideoToPlaylist_def Let_def add and_then_simps load)
next
  assume r: "\<forall>video \<in> set (playlist s). renders video"
  let ?e = "JObj [(''id'', JStr v), (''title'', JStr ''Loading...''), (''author'', JStr ''Loading...'')]"
  let ?s1 = "s\<lparr>playlist := playlist s @ [?e]\<rparr>"
  have r1: "\<forall>video \<in> set (playlist ?s1). renders video"
    using r by (simp add: renders_entry)
  have add: "addToPlaylist v ''Loading...'' ''Loading...'' s = (?s1, None)"
    using r1 by (simp add: addToPlaylist_def ui_controller)
  have "loadVideo (Num 0) ?s1 =
    (?s1\<lparr>currentIndex := Num 0, currentVideoId := field (playlist ?s1 ! nat 0) ''id'',
       calls := calls ?s1 @ [LoadVideoById (field (playlist ?s1 ! nat 0) ''id'')]\<rparr>, None)"
    by (rule loadVideo_valid [OF _ _ r1]) simp_all
  then show "addVideoToPlaylistById v s =
        (s\<lparr>playlist := playlist s @ [?e], currentIndex := Num 0,
           currentVideoId := field ((playlist s @ [?e]) ! 0) ''id'',
           calls := calls s @ [LoadVideoById (field ((playlist s @ [?e]) ! 0) ''id'')]\<rparr>, None)"
    by (simp add: addVideoToPlaylistById_def add and_then_simps)
qed


theorem first_video_loads_witness:
  "playlist (initial\<lparr>video_url := '' dQw4w9WgXcQ''\<rparr>) = []
   \<and> extractVideoId (trim (video_url (initial\<lparr>video_url := '' dQw4w9WgXcQ''\<rparr>))) = Some ''dQw4w9WgXcQ''
   \<and> calls (fst (addVideoToPlaylist (initial\<lparr>video_url := '' dQw4w9WgXcQ''\<rparr>)))
        = [LoadVideoById (JStr ''dQw4w9WgXcQ'')]
   \<and> currentIndex (fst (addVideoToPlaylist (initial\<lparr>video_url := '' dQw4w9WgXcQ''\<rparr>))) = Num 0
   \<and> renders (JObj [(''id'', JStr ''abc12345678'')])
   \<and> calls (fst (addVideoToPlaylistById ''dQw4w9WgXcQ''
        (initial\<lparr>playlist := [JObj [(''id'', JStr ''abc12345678'')]]\<rparr>)))
        = [LoadVideoById (JStr ''abc12345678'')]"
proof -
  have a: "playlist (initial\<lparr>video_url := '' dQw4w9WgXcQ''\<rparr>) = []"
    by (simp add: initial_def)
  have b: "extractVideoId (trim (video_url (initial\<lparr>video_url := '' dQw4w9WgXcQ''\<rparr>))) = Some ''dQw4w9WgXcQ''"
    by code_simp
  have c: "renders (JObj [(''id'', JStr ''abc12345678'')])"
    by (simp add: renders_def)
  show ?thesis
    using a b c
      first_video_loads [of "initial\<lparr>video_url := '' dQw4w9WgXcQ''\<rparr>" "''dQw4w9WgXcQ''"]
      first_video_loads [of "initial\<lparr>playlist := [JObj [(''id'', JStr ''abc12345678'')]]\<rparr>" "''x''"
         "''dQw4w9WgXcQ''"]
    by (simp add: initial_def field_def)
qed

lemma loadVideo_index:
  "currentIndex (fst (loadVideo index s)) =
     (case index of NaN \<Rightarrow> currentIndex s
      | Num i \<Rightarrow> if 0 \<le> i \<and> i < int (length (playlist s)) then Num i else currentIndex s)"
  by (auto simp: loadVideo_def ui_controller Let_def split: jsnum.splits sum.splits)

lemma playNextVideo_fields:
  "playlist (fst (playNextVideo s)) = playlist s \<and>
   currentIndex (fst (playNextVideo s)) =
     (if playlist s = [] then currentIndex s
      else case currentIndex s of NaN \<Rightarrow> NaN
           | Num i \<Rightarrow> Num (js_rem (i + 1) (int (length (playlist s)))))"
  by (auto simp: playNextVideo_def Let_def loadVideo_fst loadVideo_index split: jsnum.splits)

lemma playPreviousVideo_fields:
  "playlist (fst (playPreviousVideo s)) = playlist s \<and>
   currentIndex (fst (playPreviousVideo s)) =
     (if playlist s = [] then currentIndex s
      else case currentIndex s of NaN \<Rightarrow> NaN
           | Num i \<Rightarrow> Num (js_rem (i - 1 + int (length (playlist s))) (int (length (playlist s)))))"
  by (auto simp: playPreviousVideo_def Let_def loadVideo_fst loadVideo_index split: jsnum.splits)








section \<open>The cursor and the playlist\<close>

lemma cursor_valid_cong:
  "playlist t = playlist s \<Longrightarrow> currentIndex t = currentIndex s \<Longrightarrow> cursor_valid t = cursor_valid s"
  by (simp add: cursor_valid_def split: jsnum.splits)

lemma cursor_valid_loadVideo:
  "cursor_valid s \<Longrightarrow> cursor_valid (fst (loadVideo index s))"
  by (auto simp: cursor_valid_def loadVideo_fst loadVideo_index split: jsnum.splits)

lemma cursor_valid_next: "cursor_valid s \<Longrightarrow> cursor_valid (fst (playNextVideo s))"
  by (auto simp: cursor_valid_def playNextVideo_fields js_rem_def split: jsnum.splits)

lemma cursor_valid_previous: "cursor_valid s \<Longrightarrow> cursor_valid (fst (playPreviousVideo s))"
  by (auto simp: cursor_valid_def playPreviousVideo_fields js_rem_def split: jsnum.splits)

lemma cursor_valid_append:
  "cursor_valid s \<Longrightarrow> playlist s \<noteq> [] \<Longrightarrow> cursor_valid (s\<lparr>playlist := playlist s @ [e]\<rparr>)"
  by (auto simp: cursor_valid_def split: jsnum.splits)

lemma addToPlaylist_eq:
  "addToPlaylist v t a s =
     (s\<lparr>playlist := playlist s @ [JObj [(''id'', JStr v), (''title'', JStr t), (''author'', JStr a)]]\<rparr>,
      if \<forall>video \<in> set (playlist s). renders video then None else Some TypeError)"
  by (simp add: addToPlaylist_def ui_controller renders_entry)

lemma addToPlaylist_ok:
  "\<forall>video \<in> set (playlist s). renders video \<Longrightarrow>
   addToPlaylist v t a s =
     (s\<lparr>playlist := playlist s @ [JObj [(''id'', JStr v), (''title'', JStr t), (''author'', JStr a)]]\<rparr>,
      None)"
  by (simp add: addToPlaylist_eq)

lemma addToPlaylist_raises:
  "\<not> (\<forall>video \<in> set (playlist s). renders video) \<Longrightarrow>
   addToPlaylist v t a s =
     (s\<lparr>playlist := playlist s @ [JObj [(''id'', JStr v), (''title'', JStr t), (''author'', JStr a)]]\<rparr>,
      Some TypeError)"
  by (simp add: addToPlaylist_eq)

lemma loadVideo_0_single:
  "length (playlist s) = 1 \<Longrightarrow> cursor_valid (fst (loadVideo (Num 0) s))"
  by (auto simp: cursor_valid_def loadVideo_fst loadVideo_index)

lemma loadVideo_0_nonempty:
  "playlist s \<noteq> [] \<Longrightarrow> cursor_valid (fst (loadVideo (Num 0) s))"
  by (auto simp: cursor_valid_def loadVideo_fst loadVideo_index)

lemma cursor_valid_addVideoToPlaylistById:
  "cursor_valid (fst (addVideoToPlaylistById v s))"
    if "cursor_valid s"
proof (cases "\<forall>video \<in> set (playlist s). renders video")
  case True
  show ?thesis
    by (simp add: addVideoToPlaylistById_def addToPlaylist_ok [OF True] and_then_simps
        loadVideo_0_nonempty)
next
  case False
  then have "playlist s \<noteq> []" by auto
  with that show ?thesis
    by (simp add: addVideoToPlaylistById_def addToPlaylist_raises [OF False] and_then_simps
        cursor_valid_append)
qed

lemma cursor_valid_addVideoToPlaylist:
  "cursor_valid (fst (addVideoToPlaylist s))" if v: "cursor_valid s"
proof (cases "trim (video_url s) = []")
  case True
  with v show ?thesis by (simp add: addVideoToPlaylist_def)
next
  case url: False
  show ?thesis
  proof (cases "extractVideoId (trim (video_url s))")
    case None
    have "cursor_valid (s\<lparr>alerts := alerts s @ [''Invalid YouTube URL or ID'']\<rparr>)"
      using v by (simp add: cursor_valid_def split: jsnum.splits)
    with url None show ?thesis
      by (simp add: addVideoToPlaylist_def)
  next
    case (Some videoId)
    show ?thesis
    proof (cases "\<forall>video \<in> set (playlist s). renders video")
      case False
      then have "playlist s \<noteq> []" by auto
      with v url Some show ?thesis
        by (simp add: addVideoToPlaylist_def addToPlaylist_raises [OF False] and_then_simps
            cursor_valid_append)
    next
      case True
      show ?thesis
      proof (cases "playlist s = []")
        case e: True
        with url Some show ?thesis
          by (simp add: addVideoToPlaylist_def addToPlaylist_ok [OF True] and_then_simps
              loadVideo_0_single)
      next
        case False
        have "cursor_valid (s\<lparr>playlist := playlist s @
            [JObj [(''id'', JStr videoId), (''title'', JStr ''Loading...''), (''author'', JStr ''Loading...'')]],
            video_url := []\<rparr>) =
          cursor_valid (s\<lparr>playlist := playlist s @
            [JObj [(''id'', JStr videoId), (''title'', JStr ''Loading...''), (''author'', JStr ''Loading...'')]]\<rparr>)"
          by (rule cursor_valid_cong) simp_all
        then have "cursor_valid (s\<lparr>playlist := playlist s @
            [JObj [(''id'', JStr videoId), (''title'', JStr ''Loading...''), (''author'', JStr ''Loading...'')]],
            video_url := []\<rparr>)"
          using cursor_valid_append [OF v False] by simp
        with url Some False show ?thesis
          by (simp add: addVideoToPlaylist_def addToPlaylist_ok [OF True] and_then_simps)
      qed
    qed
  qed
qed

text \<open>
  C3, as stated, fails for restore and for a snapshot. A stored cursor of 5 with one
  stored track is restored as it is. A Display that receives a snapshot with one track
  and cursor 5 takes both over. A Display that holds three tracks and cursor 2, a valid
  pair, and receives a \<^verbatim>\<open>nowPlaying\<close> message with one track and no cursor replaces the
  playlist and keeps the cursor.
\<close>

theorem cursor_counterexample:
  \<open>loadPlaylistFromStorage
      (Some ''[{"id":"dQw4w9WgXcQ","title":"Loading...","author":"Loading..."}]'') (Some ''5'') initial
    = Restored (initial\<lparr>playlist := [JObj [(''id'', JStr ''dQw4w9WgXcQ''),
         (''title'', JStr ''Loading...''), (''author'', JStr ''Loading...'')]],
       currentIndex := Num 5\<rparr>)
   \<and> \<not> cursor_valid (initial\<lparr>playlist := [JObj [(''id'', JStr ''dQw4w9WgXcQ''),
         (''title'', JStr ''Loading...''), (''author'', JStr ''Loading...'')]],
       currentIndex := Num 5\<rparr>)
   \<and> d_cursor_valid loaded
   \<and> \<not> d_cursor_valid (onmessage (JObj [(''title'', JStr ''Song''), (''author'', JStr ''Band''),
         (''playlist'', JArr [JObj [(''id'', JStr ''dQw4w9WgXcQ'')]]), (''currentIndex'', JNum 5)]) loaded)
   \<and> d_cursor_valid (loaded\<lparr>d_playlist := JArr [JObj [(''id'', JStr ''a'')],
         JObj [(''id'', JStr ''b'')], JObj [(''id'', JStr ''c'')]], d_currentIndex := JNum 2\<rparr>)
   \<and> \<not> d_cursor_valid (onmessage (JObj [(''command'', JStr ''nowPlaying''),
         (''params'', JObj [(''title'', JStr ''Song''), (''author'', JStr ''Band''),
            (''playlist'', JArr [JObj [(''id'', JStr ''a'')]])])])
        (loaded\<lparr>d_playlist := JArr [JObj [(''id'', JStr ''a'')],
         JObj [(''id'', JStr ''b'')], JObj [(''id'', JStr ''c'')]], d_currentIndex := JNum 2\<rparr>))\<close>
proof -
  have a: \<open>loadPlaylistFromStorage
      (Some ''[{"id":"dQw4w9WgXcQ","title":"Loading...","author":"Loading..."}]'') (Some ''5'') initial
    = Restored (initial\<lparr>playlist := [JObj [(''id'', JStr ''dQw4w9WgXcQ''),
         (''title'', JStr ''Loading...''), (''author'', JStr ''Loading...'')]],
       currentIndex := Num 5\<rparr>)\<close>
    by code_simp
  have b: "\<not> cursor_valid (initial\<lparr>playlist := [JObj [(''id'', JStr ''dQw4w9WgXcQ''),
         (''title'', JStr ''Loading...''), (''author'', JStr ''Loading...'')]],
       currentIndex := Num 5\<rparr>)"
    by (simp add: cursor_valid_def)
  have c: "d_cursor_valid loaded" by (simp add: d_cursor_valid_def loaded_def)
  have d: "\<not> d_cursor_valid (onmessage (JObj [(''title'', JStr ''Song''), (''author'', JStr ''Band''),
         (''playlist'', JArr [JObj [(''id'', JStr ''dQw4w9WgXcQ'')]]), (''currentIndex'', JNum 5)]) loaded)"
    by (simp add: d_cursor_valid_def onmessage_def updateSongInfo_def field_def nullish_def loaded_def
        set_marquee_def and_then_simps d_updatePlaylistUI_def d_savePlaylistToStorage_def
        renders_def)
  have e: "d_cursor_valid (loaded\<lparr>d_playlist := JArr [JObj [(''id'', JStr ''a'')],
         JObj [(''id'', JStr ''b'')], JObj [(''id'', JStr ''c'')]], d_currentIndex := JNum 2\<rparr>)"
    by (simp add: d_cursor_valid_def)
  have f: "\<not> d_cursor_valid (onmessage (JObj [(''command'', JStr ''nowPlaying''),
         (''params'', JObj [(''title'', JStr ''Song''), (''author'', JStr ''Band''),
            (''playlist'', JArr [JObj [(''id'', JStr ''a'')]])])])
        (loaded\<lparr>d_playlist := JArr [JObj [(''id'', JStr ''a'')],
         JObj [(''id'', JStr ''b'')], JObj [(''id'', JStr ''c'')]], d_currentIndex := JNum 2\<rparr>))"
    by (simp add: d_cursor_valid_def onmessage_def updateSongInfo_def field_def nullish_def loaded_def
        set_marquee_def and_then_simps d_updatePlaylistUI_def d_savePlaylistToStorage_def
        renders_def)
  from a b c d e f show ?thesis by blast
qed

lemma restore_volume_fields:
  "playlist (restore_volume s) = playlist s \<and> currentIndex (restore_volume s) = currentIndex s"
  by (simp add: restore_volume_def Let_def split: option.splits)

lemma restore_parsed:
  assumes "JSON_parse text = Parsed (JArr vs) r" "text \<noteq> []"
  shows "loadPlaylistFromStorage (Some text) savedIndex s =
     (case and_then (updatePlaylistUI (restore_volume s\<lparr>playlist := vs, currentIndex :=
              (case savedIndex of None \<Rightarrow> Num 0 | Some i \<Rightarrow> if i = [] then Num 0 else parseInt i)\<rparr>))
            (\<lambda>s3. if length (playlist s3) > 0 then loadVideo (currentIndex s3) s3 else (s3, None)) of
        (s4, None) \<Rightarrow> Restored s4
      | (s4, Some e) \<Rightarrow> Raised e)"
  using assms by (simp add: loadPlaylistFromStorage_def Let_def)

lemma restore_not_array:
  assumes "JSON_parse text = Parsed v r" "text \<noteq> []" "\<forall>vs. v \<noteq> JArr vs"
  shows "loadPlaylistFromStorage (Some text) savedIndex s = Raised TypeError"
  using assms by (cases v) (simp_all add: loadPlaylistFromStorage_def Let_def)

lemma restore_malformed:
  assumes "JSON_parse text = Malformed" "text \<noteq> []"
  shows "loadPlaylistFromStorage (Some text) savedIndex s = Raised SyntaxError"
  using assms by (simp add: loadPlaylistFromStorage_def Let_def)

lemma restore_unmodelled:
  assumes "JSON_parse text = Unmodelled" "text \<noteq> []"
  shows "loadPlaylistFromStorage (Some text) savedIndex s = Beyond"
  using assms by (simp add: loadPlaylistFromStorage_def Let_def)

lemma JSON_parse_rest: "JSON_parse text = Parsed v r \<Longrightarrow> r = []"
  by (simp add: JSON_parse_def split: parse.splits if_splits)

text \<open>A text cut off inside nested arrays is malformed; the counter does not run out on it.\<close>

lemma JSON_parse_cut_off: "JSON_parse ''[[['' = Malformed"
  by code_simp

lemma restore_cursor:
  assumes a: "loadPlaylistFromStorage (Some text) savedIndex s = Restored s'" and t: "text \<noteq> []"
  shows "JSON_parse text = Parsed (JArr (playlist s')) []
     \<and> currentIndex s' =
        (case savedIndex of None \<Rightarrow> Num 0 | Some i \<Rightarrow> if i = [] then Num 0 else parseInt i)"
proof (cases "JSON_parse text")
  case Malformed
  with a t show ?thesis by (simp add: restore_malformed)
next
  case Unmodelled
  with a t show ?thesis by (simp add: restore_unmodelled)
next
  case (Parsed v r)
  then have r: "r = []" by (rule JSON_parse_rest)
  show ?thesis
  proof (cases "\<exists>vs. v = JArr vs")
    case False
    then have "\<forall>vs. v \<noteq> JArr vs" by simp
    from restore_not_array [OF Parsed t this] a show ?thesis by simp
  next
    case True
    then obtain vs where v: "v = JArr vs" by blast
    let ?c = "case savedIndex of None \<Rightarrow> Num 0 | Some i \<Rightarrow> if i = [] then Num 0 else parseInt i"
    let ?s2 = "restore_volume s\<lparr>playlist := vs, currentIndex := ?c\<rparr>"
    note eq = restore_parsed [OF Parsed [unfolded v] t, of savedIndex s]
    show ?thesis
    proof (cases "\<forall>video \<in> set vs. renders video")
      case False
      then have "updatePlaylistUI ?s2 = (?s2, Some TypeError)" by (simp add: ui_controller)
      with eq a show ?thesis by (simp add: and_then_simps)
    next
      case True
      then have ui: "updatePlaylistUI ?s2 = (?s2, None)" by (simp add: ui_controller)
      show ?thesis
      proof (cases "length vs > 0")
        case False
        with eq a ui have "s' = ?s2" by (simp add: and_then_simps)
        with Parsed r v False show ?thesis by simp
      next
        case True
        obtain s4 e where l: "loadVideo ?c ?s2 = (s4, e)" by (cases "loadVideo ?c ?s2")
        with eq a ui True have "s' = s4" by (cases e) (simp_all add: and_then_simps)
        with l have "s' = fst (loadVideo ?c ?s2)" by simp
        then have "playlist s' = vs \<and> currentIndex s' = ?c"
          by (simp add: loadVideo_fst loadVideo_index split: jsnum.splits)
        with Parsed r v show ?thesis by simp
      qed
    qed
  qed
qed

lemma onmessage_playlist:
  "d_playlist (onmessage data s)
     = (case snapshot_of data of None \<Rightarrow> d_playlist s | Some (pl, c) \<Rightarrow> pl)"
proof -
  have sv: "\<And>x. d_playlist (fst (d_savePlaylistToStorage x)) = d_playlist x"
    by (simp add: d_savePlaylistToStorage_def Let_def)
  have at: "\<And>r f. (\<And>x. d_playlist (fst (f x)) = d_playlist x) \<Longrightarrow>
      d_playlist (fst (and_then r f)) = d_playlist (fst r)"
    by (auto simp: and_then_def split: prod.splits option.splits)
  show ?thesis
    by (simp add: onmessage_def updateSongInfo_def snapshot_of_def Let_def set_marquee_def
        and_then_simps at sv ui_fst)
qed

lemma onmessage_cursor:
  "d_currentIndex (onmessage data s)
     = (case snapshot_of data of Some (pl, Some c) \<Rightarrow> c | _ \<Rightarrow> d_currentIndex s)"
proof -
  have sv: "\<And>x. d_currentIndex (fst (d_savePlaylistToStorage x)) = d_currentIndex x"
    by (simp add: d_savePlaylistToStorage_def Let_def)
  have at: "\<And>r f. (\<And>x. d_currentIndex (fst (f x)) = d_currentIndex x) \<Longrightarrow>
      d_currentIndex (fst (and_then r f)) = d_currentIndex (fst r)"
    by (auto simp: and_then_def split: prod.splits option.splits)
  show ?thesis
    by (simp add: onmessage_def updateSongInfo_def snapshot_of_def Let_def set_marquee_def
        and_then_simps at sv ui_fst)
qed

text \<open>
  C3, amended. The cursor of the Controller is a valid index whenever the playlist is
  not empty at start-up, and each of add (from the input or by identifier), load, next
  and previous keeps it so. Restore and the application of a snapshot do not check.
  After a restore the playlist is the stored array and the cursor is \<^verbatim>\<open>parseInt\<close> of the
  stored index, 0 when there is none, for every stored index up to \<open>2 ^ 53\<close> in
  magnitude. After any message the replica of a Display holds the playlist that the
  message carries, or the one it held when the message carries none, and the cursor that
  the message carries, or the one it held when the message carries none; so a message
  with a playlist and no cursor pairs the new playlist with the old cursor.
\<close>

theorem cursor_stays_valid:
  "cursor_valid initial
   \<and> (cursor_valid s \<longrightarrow>
        cursor_valid (fst (addVideoToPlaylist s))
      \<and> cursor_valid (fst (addVideoToPlaylistById videoId s))
      \<and> cursor_valid (fst (loadVideo index s))
      \<and> cursor_valid (fst (playNextVideo s))
      \<and> cursor_valid (fst (playPreviousVideo s)))
   \<and> (loadPlaylistFromStorage (Some text) savedIndex s0 = Restored s' \<and> text \<noteq> []
        \<and> safe (case savedIndex of None \<Rightarrow> Num 0 | Some i \<Rightarrow> if i = [] then Num 0 else parseInt i) \<longrightarrow>
        JSON_parse text = Parsed (JArr (playlist s')) []
      \<and> currentIndex s' =
          (case savedIndex of None \<Rightarrow> Num 0 | Some i \<Rightarrow> if i = [] then Num 0 else parseInt i))
   \<and> d_playlist (onmessage data t)
       = (case snapshot_of data of None \<Rightarrow> d_playlist t | Some (pl, c) \<Rightarrow> pl)
   \<and> d_currentIndex (onmessage data t)
       = (case snapshot_of data of Some (pl, Some c) \<Rightarrow> c | _ \<Rightarrow> d_currentIndex t)"
proof (intro conjI impI)
  show "cursor_valid initial" by (simp add: cursor_valid_def initial_def)
next
  assume "cursor_valid s"
  then show "cursor_valid (fst (addVideoToPlaylist s))" by (rule cursor_valid_addVideoToPlaylist)
next
  assume "cursor_valid s"
  then show "cursor_valid (fst (addVideoToPlaylistById videoId s))"
    by (rule cursor_valid_addVideoToPlaylistById)
next
  assume "cursor_valid s"
  then show "cursor_valid (fst (loadVideo index s))" by (rule cursor_valid_loadVideo)
next
  assume "cursor_valid s"
  then show "cursor_valid (fst (playNextVideo s))" by (rule cursor_valid_next)
next
  assume "cursor_valid s"
  then show "cursor_valid (fst (playPreviousVideo s))" by (rule cursor_valid_previous)
next
  assume a: "loadPlaylistFromStorage (Some text) savedIndex s0 = Restored s' \<and> text \<noteq> []
        \<and> safe (case savedIndex of None \<Rightarrow> Num 0 | Some i \<Rightarrow> if i = [] then Num 0 else parseInt i)"
  from restore_cursor [OF conjunct1 [OF a] conjunct1 [OF conjunct2 [OF a]]]
  show "JSON_parse text = Parsed (JArr (playlist s')) []" by (rule conjunct1)
next
  assume a: "loadPlaylistFromStorage (Some text) savedIndex s0 = Restored s' \<and> text \<noteq> []
        \<and> safe (case savedIndex of None \<Rightarrow> Num 0 | Some i \<Rightarrow> if i = [] then Num 0 else parseInt i)"
  from restore_cursor [OF conjunct1 [OF a] conjunct1 [OF conjunct2 [OF a]]]
  show "currentIndex s' =
          (case savedIndex of None \<Rightarrow> Num 0 | Some i \<Rightarrow> if i = [] then Num 0 else parseInt i)"
    by (rule conjunct2)
next
  show "d_playlist (onmessage data t)
       = (case snapshot_of data of None \<Rightarrow> d_playlist t | Some (pl, c) \<Rightarrow> pl)"
    by (rule onmessage_playlist)
next
  show "d_currentIndex (onmessage data t)
       = (case snapshot_of data of Some (pl, Some c) \<Rightarrow> c | _ \<Rightarrow> d_currentIndex t)"
    by (rule onmessage_cursor)
qed

theorem cursor_stays_valid_witness:
  \<open>cursor_valid (initial\<lparr>playlist := [JStr ''a'', JStr ''b''], currentIndex := Num 1\<rparr>)
   \<and> cursor_valid (fst (playNextVideo
        (initial\<lparr>playlist := [JStr ''a'', JStr ''b''], currentIndex := Num 1\<rparr>)))
   \<and> loadPlaylistFromStorage (Some ''[{"id":"a"}]'') (Some ''0'') initial
       = Restored (initial\<lparr>playlist := [JObj [(''id'', JStr ''a'')]], currentVideoId := JStr ''a'',
           calls := [LoadVideoById (JStr ''a'')]\<rparr>)
   \<and> safe (parseInt ''0'')
   \<and> JSON_parse ''[{"id":"a"}]'' = Parsed (JArr [JObj [(''id'', JStr ''a'')]]) []
   \<and> currentIndex (initial\<lparr>playlist := [JObj [(''id'', JStr ''a'')]], currentVideoId := JStr ''a'',
           calls := [LoadVideoById (JStr ''a'')]\<rparr>) = parseInt ''0''
   \<and> d_playlist (onmessage (JObj [(''command'', JStr ''nowPlaying''),
         (''params'', JObj [(''title'', JStr ''Song''), (''author'', JStr ''Band''),
            (''playlist'', JArr [JObj [(''id'', JStr ''a'')]])])])
        (loaded\<lparr>d_playlist := JArr [JObj [(''id'', JStr ''a'')],
         JObj [(''id'', JStr ''b'')], JObj [(''id'', JStr ''c'')]], d_currentIndex := JNum 2\<rparr>))
       = JArr [JObj [(''id'', JStr ''a'')]]
   \<and> d_currentIndex (onmessage (JObj [(''command'', JStr ''nowPlaying''),
         (''params'', JObj [(''title'', JStr ''Song''), (''author'', JStr ''Band''),
            (''playlist'', JArr [JObj [(''id'', JStr ''a'')]])])])
        (loaded\<lparr>d_playlist := JArr [JObj [(''id'', JStr ''a'')],
         JObj [(''id'', JStr ''b'')], JObj [(''id'', JStr ''c'')]], d_currentIndex := JNum 2\<rparr>))
       = JNum 2\<close>
proof -
  let ?s = "initial\<lparr>playlist := [JStr ''a'', JStr ''b''], currentIndex := Num 1\<rparr>"
  let ?r = "initial\<lparr>playlist := [JObj [(''id'', JStr ''a'')]], currentVideoId := JStr ''a'',
           calls := [LoadVideoById (JStr ''a'')]\<rparr>"
  let ?m = "JObj [(''command'', JStr ''nowPlaying''),
         (''params'', JObj [(''title'', JStr ''Song''), (''author'', JStr ''Band''),
            (''playlist'', JArr [JObj [(''id'', JStr ''a'')]])])]"
  let ?t = "loaded\<lparr>d_playlist := JArr [JObj [(''id'', JStr ''a'')],
         JObj [(''id'', JStr ''b'')], JObj [(''id'', JStr ''c'')]], d_currentIndex := JNum 2\<rparr>"
  have a: "cursor_valid ?s"
    by (simp add: cursor_valid_def)
  have b: \<open>loadPlaylistFromStorage (Some ''[{"id":"a"}]'') (Some ''0'') initial = Restored ?r\<close>
    by code_simp
  have p: "parseInt ''0'' = Num 0"
    by (simp add: parseInt_def white_space_def radix_digit_def digit_value_def code_def Let_def)
  have c: "safe (parseInt ''0'')" by (simp add: p safe_def)
  have m: "snapshot_of ?m = Some (JArr [JObj [(''id'', JStr ''a'')]], None)"
    by (simp add: snapshot_of_def field_def nullish_def)
  note w = cursor_stays_valid [of ?s "[]" NaN \<open>''[{"id":"a"}]''\<close> "Some ''0''" initial ?r ?m ?t]
  from w a have n: "cursor_valid (fst (playNextVideo ?s))" by blast
  from w b c have r: \<open>JSON_parse ''[{"id":"a"}]'' = Parsed (JArr (playlist ?r)) []\<close>
    "currentIndex ?r = parseInt ''0''"
    by simp_all
  from w m have d: "d_playlist (onmessage ?m ?t) = JArr [JObj [(''id'', JStr ''a'')]]"
    "d_currentIndex (onmessage ?m ?t) = JNum 2"
    by simp_all
  from a n b c r d show ?thesis by simp
qed

section \<open>The volume\<close>













section \<open>Restoring\<close>

text \<open>
  C1, as stated, fails: \<^verbatim>\<open>loadPlaylistFromStorage\<close> has no \<^verbatim>\<open>try\<close>. A truncated record
  makes \<^verbatim>\<open>JSON.parse\<close> raise SyntaxError, and a record of another shape, an object in
  place of the array, makes \<^verbatim>\<open>playlist.forEach\<close> raise TypeError.
\<close>

theorem restore_counterexample:
  \<open>playlist initial = [] \<and> currentIndex initial = Num 0
   \<and> loadPlaylistFromStorage (Some ''[{"id":"dQw4w9WgXcQ","title":"Load'') (Some ''0'') initial
      = Raised SyntaxError
   \<and> loadPlaylistFromStorage (Some ''{"playlist":[],"currentIndex":0}'') (Some ''0'') initial
      = Raised TypeError\<close>
proof -
  have a: \<open>loadPlaylistFromStorage (Some ''[{"id":"dQw4w9WgXcQ","title":"Load'') (Some ''0'') initial
      = Raised SyntaxError\<close>
    by code_simp
  have b: \<open>loadPlaylistFromStorage (Some ''{"playlist":[],"currentIndex":0}'') (Some ''0'') initial
      = Raised TypeError\<close>
    by code_simp
  from a b show ?thesis by (simp add: initial_def)
qed

text \<open>
  C1, amended. With no stored playlist (or an empty one) restore raises nothing and
  leaves playlist and cursor as they are, empty and 0 at start-up. A stored text that is
  not JSON makes it raise SyntaxError, and one that is JSON but not an array makes it
  raise TypeError.
\<close>

theorem restore_missing:
  "(savedPlaylist = None \<or> savedPlaylist = Some [] \<longrightarrow>
      loadPlaylistFromStorage savedPlaylist savedIndex s = Restored (restore_volume s)
      \<and> playlist (restore_volume s) = playlist s
      \<and> currentIndex (restore_volume s) = currentIndex s)
   \<and> loadPlaylistFromStorage None savedIndex initial = Restored initial
   \<and> playlist initial = [] \<and> currentIndex initial = Num 0
   \<and> (text \<noteq> [] \<and> JSON_parse text = Malformed \<longrightarrow>
      loadPlaylistFromStorage (Some text) savedIndex s = Raised SyntaxError)
   \<and> (text \<noteq> [] \<and> JSON_parse text = Parsed v r \<and> (\<forall>vs. v \<noteq> JArr vs) \<longrightarrow>
      loadPlaylistFromStorage (Some text) savedIndex s = Raised TypeError)"
proof -
  have m: "savedPlaylist = None \<or> savedPlaylist = Some [] \<longrightarrow>
      loadPlaylistFromStorage savedPlaylist savedIndex s = Restored (restore_volume s)"
    by (auto simp: loadPlaylistFromStorage_def Let_def)
  have i: "loadPlaylistFromStorage None savedIndex initial = Restored initial"
    by (simp add: loadPlaylistFromStorage_def Let_def restore_volume_def initial_def)
  have e: "playlist initial = [] \<and> currentIndex initial = Num 0" by (simp add: initial_def)
  from m i e restore_volume_fields [of s] restore_malformed [of "text" savedIndex s]
    restore_not_array [of "text" v r savedIndex s]
  show ?thesis by blast
qed

theorem restore_missing_witness:
  \<open>loadPlaylistFromStorage None (Some ''3'') (initial\<lparr>youtubePlayerVolume := Some ''0''\<rparr>)
     = Restored (restore_volume (initial\<lparr>youtubePlayerVolume := Some ''0''\<rparr>))
   \<and> playlist (restore_volume (initial\<lparr>youtubePlayerVolume := Some ''0''\<rparr>)) = []
   \<and> currentIndex (restore_volume (initial\<lparr>youtubePlayerVolume := Some ''0''\<rparr>)) = Num 0
   \<and> ''{"a'' \<noteq> [] \<and> JSON_parse ''{"a'' = Malformed
   \<and> loadPlaylistFromStorage (Some ''{"a'') None initial = Raised SyntaxError
   \<and> JSON_parse ''"abc"'' = Parsed (JStr ''abc'') []
   \<and> loadPlaylistFromStorage (Some ''"abc"'') None initial = Raised TypeError\<close>
proof -
  have a: \<open>JSON_parse ''{"a'' = Malformed\<close> by code_simp
  have b: \<open>JSON_parse ''"abc"'' = Parsed (JStr ''abc'') []\<close> by code_simp
  show ?thesis
    using a b
      restore_missing [of None "Some ''3''" "initial\<lparr>youtubePlayerVolume := Some ''0''\<rparr>"
        \<open>''{"a''\<close> JNull "[]"]
      restore_missing [of None None initial \<open>''{"a''\<close> JNull "[]"]
      restore_missing [of None None initial \<open>''"abc"''\<close> "JStr ''abc''" "[]"]
    by (simp add: initial_def)
qed

section \<open>Resolution\<close>

lemma strip_prefix_iff: "strip_prefix p s = Some r \<longleftrightarrow> s = p @ r"
  by (induction p s rule: strip_prefix.induct) auto

lemma strip_prefix_None: "strip_prefix p s = None \<longleftrightarrow> (\<forall>r. s \<noteq> p @ r)"
  using strip_prefix_iff [of p s] by (cases "strip_prefix p s") auto

lemma alt_youtu_be_iff:
  "alt_youtu_be s = Some r \<longleftrightarrow> (\<exists>c. \<not> line_terminator c \<and> s = ''youtu'' @ [c] @ ''be/'' @ r)"
  by (auto simp: alt_youtu_be_def strip_prefix_iff split: option.splits list.splits if_splits)

lemma alt_u_w_iff:
  "alt_u_w s = Some r \<longleftrightarrow> (\<exists>w. word_char w \<and> s = ''u/'' @ [w] @ ''/'' @ r)"
  by (auto simp: alt_u_w_def strip_prefix_iff split: option.splits list.splits if_splits)

lemma group1_marker: "group1 s = Some r \<Longrightarrow> \<exists>m. marker m \<and> s = m @ r"
proof -
  assume a: "group1 s = Some r"
  consider "alt_youtu_be s = Some r" | "strip_prefix ''v/'' s = Some r" | "alt_u_w s = Some r"
    | "strip_prefix ''embed/'' s = Some r" | "strip_prefix ''watch?v='' s = Some r"
    | "strip_prefix ''&v='' s = Some r"
    using a by (auto simp: group1_def split: option.splits)
  then show ?thesis
  proof cases
    case 1
    then obtain c where "\<not> line_terminator c" "s = ''youtu'' @ [c] @ ''be/'' @ r"
      by (auto simp: alt_youtu_be_iff)
    then have "marker (''youtu'' @ [c] @ ''be/'') \<and> s = (''youtu'' @ [c] @ ''be/'') @ r"
      by (auto simp: marker_def)
    then show ?thesis by blast
  next
    case 2
    then have "marker ''v/'' \<and> s = ''v/'' @ r" by (simp add: strip_prefix_iff marker_def)
    then show ?thesis by blast
  next
    case 3
    then obtain w where "word_char w" "s = ''u/'' @ [w] @ ''/'' @ r"
      by (auto simp: alt_u_w_iff)
    then have "marker (''u/'' @ [w] @ ''/'') \<and> s = (''u/'' @ [w] @ ''/'') @ r"
      by (auto simp: marker_def)
    then show ?thesis by blast
  next
    case 4
    then have "marker ''embed/'' \<and> s = ''embed/'' @ r" by (simp add: strip_prefix_iff marker_def)
    then show ?thesis by blast
  next
    case 5
    then have "marker ''watch?v='' \<and> s = ''watch?v='' @ r" by (simp add: strip_prefix_iff marker_def)
    then show ?thesis by blast
  next
    case 6
    then have "marker ''&v='' \<and> s = ''&v='' @ r" by (simp add: strip_prefix_iff marker_def)
    then show ?thesis by blast
  qed
qed

lemma marker_group1: "marker m \<Longrightarrow> group1 (m @ r) = Some r"
proof -
  assume "marker m"
  then consider c where "\<not> line_terminator c" "m = ''youtu'' @ [c] @ ''be/''" | "m = ''v/''"
    | w where "word_char w" "m = ''u/'' @ [w] @ ''/''" | "m = ''embed/''" | "m = ''watch?v=''"
    | "m = ''&v=''"
    unfolding marker_def by blast
  then show ?thesis
  proof cases
    case 1 then show ?thesis by (simp add: group1_def alt_youtu_be_def)
  next
    case 2 then show ?thesis by (simp add: group1_def alt_youtu_be_def)
  next
    case 3 then show ?thesis by (simp add: group1_def alt_youtu_be_def alt_u_w_def)
  next
    case 4 then show ?thesis by (simp add: group1_def alt_youtu_be_def alt_u_w_def)
  next
    case 5 then show ?thesis by (simp add: group1_def alt_youtu_be_def alt_u_w_def)
  next
    case 6 then show ?thesis by (simp add: group1_def alt_youtu_be_def alt_u_w_def)
  qed
qed

lemma marker_nonempty: "marker m \<Longrightarrow> m \<noteq> []"
  by (auto simp: marker_def)

lemma marker_unique:
  assumes "marker m" "marker m'" "m @ r = m' @ r'"
  shows "m = m' \<and> r = r'"
proof -
  have "Some r = group1 (m @ r)" using assms(1) by (simp add: marker_group1)
  also have "\<dots> = group1 (m' @ r')" by (simp only: assms(3))
  also have "\<dots> = Some r'" using assms(2) by (simp add: marker_group1)
  finally have "r = r'" by simp
  with assms(3) show ?thesis by simp
qed

lemma groups_here_iff:
  "groups_here s = Some g \<longleftrightarrow> (\<exists>m r. marker m \<and> s = m @ r \<and> g = takeWhile id_char r)"
proof
  assume "groups_here s = Some g"
  then obtain r where "group1 s = Some r" "g = takeWhile id_char r"
    by (auto simp: groups_here_def)
  with group1_marker [of s r] show "\<exists>m r. marker m \<and> s = m @ r \<and> g = takeWhile id_char r"
    by blast
next
  assume "\<exists>m r. marker m \<and> s = m @ r \<and> g = takeWhile id_char r"
  then show "groups_here s = Some g"
    by (auto simp: groups_here_def marker_group1)
qed

lemma groups_here_None: "groups_here s = None \<longleftrightarrow> (\<forall>m r. marker m \<longrightarrow> s \<noteq> m @ r)"
proof (cases "groups_here s")
  case None
  have "\<And>m r. marker m \<Longrightarrow> s = m @ r \<Longrightarrow> False"
  proof -
    fix m r assume "marker m" "s = m @ r"
    then have "groups_here s = Some (takeWhile id_char r)"
      by (auto simp: groups_here_iff)
    with None show False by simp
  qed
  with None show ?thesis by blast
next
  case (Some g)
  then obtain m r where "marker m" "s = m @ r" by (auto simp: groups_here_iff)
  then have "\<not> (\<forall>m r. marker m \<longrightarrow> s \<noteq> m @ r)" by blast
  with Some show ?thesis by simp
qed

lemma marker_at_Nil: "\<not> marker_at [] p m r"
  by (auto simp: marker_at_def marker_nonempty)

lemma marker_at_Cons:
  "marker_at (c # cs) p m r \<longleftrightarrow>
     (p = [] \<and> marker m \<and> c # cs = m @ r)
     \<or> (\<not> line_terminator c \<and> (\<exists>p'. p = c # p' \<and> marker_at cs p' m r))"
  by (cases p) (auto simp: marker_at_def)

lemma regExp_None: "regExp url = None \<longleftrightarrow> (\<forall>p m r. \<not> marker_at url p m r)"
proof (induction url)
  case Nil
  have "groups_here [] = None" by (simp add: groups_here_None marker_nonempty)
  then show ?case by (simp add: marker_at_Nil)
next
  case (Cons c cs)
  show ?case
  proof (cases "line_terminator c")
    case True
    then show ?thesis
      by (auto simp: groups_here_None marker_at_Cons)
  next
    case False
    show ?thesis
    proof (cases "regExp cs")
      case None
      with Cons have "\<forall>p m r. \<not> marker_at cs p m r" by simp
      with None False show ?thesis
        by (auto simp: groups_here_None marker_at_Cons)
    next
      case (Some g)
      with Cons obtain p m r where "marker_at cs p m r" by auto
      with False have "marker_at (c # cs) (c # p) m r" by (simp add: marker_at_Cons)
      with Some False show ?thesis by auto
    qed
  qed
qed

lemma regExp_Some:
  "regExp url = Some g \<Longrightarrow> url_shape url g"
proof (induction url arbitrary: g)
  case Nil
  have "groups_here [] = None" by (simp add: groups_here_None marker_nonempty)
  with Nil show ?case by simp
next
  case (Cons c cs)
  have here: "url_shape (c # cs) g"
    if h: "groups_here (c # cs) = Some g" and n: "\<forall>p m r. p \<noteq> [] \<longrightarrow> \<not> marker_at (c # cs) p m r"
  proof -
    from h obtain m r where m: "marker m" "c # cs = m @ r" "g = takeWhile id_char r"
      by (auto simp: groups_here_iff)
    then have "marker_at (c # cs) [] m r" by (simp add: marker_at_def)
    moreover have "\<forall>p' m' r'. marker_at (c # cs) p' m' r' \<longrightarrow> length p' \<le> length ([]::string)"
      using n by (metis le_refl)
    ultimately show ?thesis using m(3) unfolding url_shape_def by blast
  qed
  show ?case
  proof (cases "line_terminator c")
    case True
    with Cons.prems have h: "groups_here (c # cs) = Some g" by simp
    from True have "\<forall>p m r. p \<noteq> [] \<longrightarrow> \<not> marker_at (c # cs) p m r"
      by (auto simp: marker_at_Cons)
    with h show ?thesis by (rule here)
  next
    case False
    show ?thesis
    proof (cases "regExp cs")
      case None
      with Cons.prems False have h: "groups_here (c # cs) = Some g" by simp
      from None have "\<forall>p m r. \<not> marker_at cs p m r" by (simp add: regExp_None)
      then have "\<forall>p m r. p \<noteq> [] \<longrightarrow> \<not> marker_at (c # cs) p m r"
        by (auto simp: marker_at_Cons)
      with h show ?thesis by (rule here)
    next
      case (Some g')
      with Cons.prems False have "g' = g" by simp
      with Some Cons.IH have "url_shape cs g" by simp
      then obtain p m r where p: "marker_at cs p m r" "g = takeWhile id_char r"
        "\<forall>p' m' r'. marker_at cs p' m' r' \<longrightarrow> length p' \<le> length p"
        unfolding url_shape_def by blast
      from p(1) False have "marker_at (c # cs) (c # p) m r" by (simp add: marker_at_Cons)
      moreover have "length p' \<le> length (c # p)" if "marker_at (c # cs) p' m' r'" for p' m' r'
      proof (cases p')
        case Nil
        then show ?thesis by simp
      next
        case (Cons d q)
        with that have "marker_at cs q m' r'" by (simp add: marker_at_Cons)
        with p(3) have "length q \<le> length p" by blast
        with Cons show ?thesis by simp
      qed
      ultimately show ?thesis using p(2) unfolding url_shape_def by blast
    qed
  qed
qed

lemma url_shape_unique:
  assumes "url_shape url g" "url_shape url g'"
  shows "g = g'"
proof -
  from assms(1) obtain p m r where a: "marker_at url p m r" "g = takeWhile id_char r"
    "\<forall>p' m' r'. marker_at url p' m' r' \<longrightarrow> length p' \<le> length p"
    unfolding url_shape_def by blast
  from assms(2) obtain p' m' r' where b: "marker_at url p' m' r'" "g' = takeWhile id_char r'"
    "\<forall>q m r. marker_at url q m r \<longrightarrow> length q \<le> length p'"
    unfolding url_shape_def by blast
  from a(1) a(3) b(1) b(3) have l: "length p = length p'" by (meson le_antisym)
  from a(1) b(1) have e: "p @ m @ r = p' @ m' @ r'" "marker m" "marker m'"
    by (simp_all add: marker_at_def)
  with l have "p = p'" "m @ r = m' @ r'" by simp_all
  with e marker_unique [of m m' r r'] have "r = r'" by simp
  with a(2) b(2) show ?thesis by simp
qed

lemma regExp_iff: "regExp url = Some g \<longleftrightarrow> url_shape url g"
proof
  assume "regExp url = Some g"
  then show "url_shape url g" by (rule regExp_Some)
next
  assume u: "url_shape url g"
  then have "\<exists>p m r. marker_at url p m r" unfolding url_shape_def by blast
  then have "regExp url \<noteq> None" by (simp add: regExp_None)
  then obtain g' where g': "regExp url = Some g'" by auto
  then have "url_shape url g'" by (rule regExp_Some)
  with u have "g = g'" by (rule url_shape_unique)
  with g' show "regExp url = Some g" by simp
qed


text \<open>
  C2, as stated, fails: \<^verbatim>\<open>not-a-video\<close> has eleven characters, so it is taken for an
  identifier and appended to the playlist.
\<close>

theorem resolution_counterexample:
  "extractVideoId ''not-a-video'' = Some ''not-a-video''
   \<and> playlist (initial\<lparr>video_url := ''not-a-video''\<rparr>) = []
   \<and> playlist (fst (addVideoToPlaylist (initial\<lparr>video_url := ''not-a-video''\<rparr>)))
       = [JObj [(''id'', JStr ''not-a-video''), (''title'', JStr ''Loading...''),
                (''author'', JStr ''Loading...'')]]"
proof -
  have a: "extractVideoId ''not-a-video'' = Some ''not-a-video''" by code_simp
  have b: "trim ''not-a-video'' = ''not-a-video''" by code_simp
  have "playlist (fst (addVideoToPlaylist (initial\<lparr>video_url := ''not-a-video''\<rparr>)))
       = [JObj [(''id'', JStr ''not-a-video''), (''title'', JStr ''Loading...''),
                (''author'', JStr ''Loading...'')]]"
    by (simp add: addVideoToPlaylist_def Let_def a b initial_def addToPlaylist_eq and_then_simps
        loadVideo_fst)
  with a show ?thesis by (simp add: initial_def)
qed

lemma extractVideoId_iff:
  "extractVideoId url = Some v \<longleftrightarrow>
     (url_shape url v \<and> length v = 11)
     \<or> (v = url \<and> length url = 11 \<and> \<not> (\<exists>g. url_shape url g \<and> length g = 11))"
proof (cases "regExp url")
  case None
  then have "\<And>g. \<not> url_shape url g" by (simp add: regExp_iff [symmetric])
  with None show ?thesis by (auto simp: extractVideoId_def)
next
  case (Some m2)
  then have u: "url_shape url m2" by (simp add: regExp_iff)
  then have only: "\<And>g. url_shape url g \<longleftrightarrow> g = m2"
    using url_shape_unique by blast
  from Some show ?thesis by (auto simp: extractVideoId_def only)
qed

lemma failed_resolution:
  assumes "extractVideoId (trim (video_url s)) = None"
  shows "playlist (fst (addVideoToPlaylist s)) = playlist s
     \<and> currentIndex (fst (addVideoToPlaylist s)) = currentIndex s
     \<and> calls (fst (addVideoToPlaylist s)) = calls s"
  using assms by (simp add: addVideoToPlaylist_def Let_def)

text \<open>
  C2, amended. Resolution succeeds exactly in two cases: what follows the last marker
  of the input, up to the next \<^verbatim>\<open>#\<close>, \<^verbatim>\<open>&\<close> or \<^verbatim>\<open>?\<close>, has eleven characters, and is
  the result; or else the whole input has eleven characters, and is the result. When it
  fails, the playlist, the cursor and the player are left alone. The short and the long
  form of a URL and the bare identifier resolve to \<^verbatim>\<open>dQw4w9WgXcQ\<close>; \<^verbatim>\<open>not-a-video\<close>,
  of eleven characters, resolves to itself; \<^verbatim>\<open>not-a-video-url\<close> fails.
\<close>

theorem resolution_exact:
  "(extractVideoId url = Some v \<longleftrightarrow>
      (url_shape url v \<and> length v = 11)
      \<or> (v = url \<and> length url = 11 \<and> \<not> (\<exists>g. url_shape url g \<and> length g = 11)))
   \<and> (extractVideoId (trim (video_url s)) = None \<longrightarrow>
        playlist (fst (addVideoToPlaylist s)) = playlist s
      \<and> currentIndex (fst (addVideoToPlaylist s)) = currentIndex s
      \<and> calls (fst (addVideoToPlaylist s)) = calls s)
   \<and> extractVideoId ''https://youtu.be/dQw4w9WgXcQ'' = Some ''dQw4w9WgXcQ''
   \<and> extractVideoId ''https://www.youtube.com/watch?v=dQw4w9WgXcQ'' = Some ''dQw4w9WgXcQ''
   \<and> extractVideoId ''dQw4w9WgXcQ'' = Some ''dQw4w9WgXcQ''
   \<and> extractVideoId ''not-a-video'' = Some ''not-a-video''
   \<and> extractVideoId ''not-a-video-url'' = None"
proof -
  have a: "extractVideoId ''https://youtu.be/dQw4w9WgXcQ'' = Some ''dQw4w9WgXcQ''" by code_simp
  have b: "extractVideoId ''https://www.youtube.com/watch?v=dQw4w9WgXcQ'' = Some ''dQw4w9WgXcQ''"
    by code_simp
  have c: "extractVideoId ''dQw4w9WgXcQ'' = Some ''dQw4w9WgXcQ''" by code_simp
  have d: "extractVideoId ''not-a-video'' = Some ''not-a-video''" by code_simp
  have e: "extractVideoId ''not-a-video-url'' = None" by code_simp
  from a b c d e extractVideoId_iff [of url v] failed_resolution [of s]
  show ?thesis by blast
qed

theorem resolution_exact_witness:
  "url_shape ''https://youtu.be/dQw4w9WgXcQ'' ''dQw4w9WgXcQ''
   \<and> extractVideoId (trim (video_url (initial\<lparr>video_url := ''not-a-video-url''\<rparr>))) = None
   \<and> playlist (fst (addVideoToPlaylist (initial\<lparr>video_url := ''not-a-video-url''\<rparr>))) = []"
proof -
  have a: "extractVideoId (trim (video_url (initial\<lparr>video_url := ''not-a-video-url''\<rparr>))) = None"
    by code_simp
  note w = resolution_exact [of "''https://youtu.be/dQw4w9WgXcQ''" "''dQw4w9WgXcQ''"
      "initial\<lparr>video_url := ''not-a-video-url''\<rparr>"]
  from w have "url_shape ''https://youtu.be/dQw4w9WgXcQ'' ''dQw4w9WgXcQ''" by blast
  moreover from w a have "playlist (fst (addVideoToPlaylist (initial\<lparr>video_url := ''not-a-video-url''\<rparr>)))
      = playlist (initial\<lparr>video_url := ''not-a-video-url''\<rparr>)" by blast
  ultimately show ?thesis using a by (simp add: initial_def)
qed

end
